theory Spec2Isabelle
  imports Complex_Main "HOL-Library.Multiset" "HOL-Library.Sublist"
begin

text \<open>
  A model of the migration script (Realtime Database to Firestore: the collection
  migrators, the batch writer, the validator and the orchestrator), of the alert
  evaluator of the alert script, of \<^verbatim>\<open>sendTelegramMessage\<close>, and of the two versions of
  \<^verbatim>\<open>saveActiveChatId\<close>. Stores are explicit values that the functions take and return;
  every call that can reject is answered by an environment, so that a failed read, write
  or commit is a branch of the model; an exception is a value.
\<close>

section \<open>JavaScript values of the scripts\<close>

text \<open>
  A JSON object read from the Realtime Database is an association list in the order in
  which \<^verbatim>\<open>Object.keys\<close> / \<^verbatim>\<open>Object.entries\<close> enumerate it. The keys of an
  object are pairwise different; theorems that need this say so with
  \<open>distinct (Object_keys obj)\<close>. A JSON number is the rational value of the double;
  the subtraction of two such numbers rounds its result to a double (see the section on
  the alert evaluator), and the counters of the scripts are natural numbers.
\<close>

type_synonym 'v js_object = "(string \<times> 'v) list"

definition Object_keys :: "'v js_object \<Rightarrow> string list" where
  "Object_keys obj = map fst obj"

text \<open>Property access \<^verbatim>\<open>obj[key]\<close>: \<open>None\<close> is \<^verbatim>\<open>undefined\<close>.\<close>

definition get_prop :: "'v js_object \<Rightarrow> string \<Rightarrow> 'v option" where
  "get_prop obj key = map_of obj key"

text \<open>\<^verbatim>\<open>x || 0\<close> on an optional number: \<^verbatim>\<open>undefined\<close> and \<open>0\<close> are falsy.\<close>

definition or_zero :: "rat option \<Rightarrow> rat" where
  "or_zero x = (case x of None \<Rightarrow> 0 | Some v \<Rightarrow> (if v = 0 then 0 else v))"

text \<open>An exception that leaves a function.\<close>

datatype exn =
    Read_failed
  | Write_failed
  | Batch_already_committed
  | Type_error

section \<open>Decimal numerals\<close>

text \<open>The decimal numeral of a natural number, as \<^verbatim>\<open>String(n)\<close> prints it.\<close>

definition digit_char :: "nat \<Rightarrow> char" where
  "digit_char d = ''0123456789'' ! d"

fun decimal :: "nat \<Rightarrow> string" where
  "decimal n = (if n < 10 then [digit_char n] else decimal (n div 10) @ [digit_char (n mod 10)])"

declare decimal.simps [simp del]

text \<open>
  The value of a non-empty string of decimal digits, and \<open>None\<close> for any other string:
  what \<^verbatim>\<open>parseInt\<close> returns on the keys of the sample data.
\<close>

definition is_digit :: "char \<Rightarrow> bool" where
  "is_digit c = (48 \<le> (of_char c :: nat) \<and> (of_char c :: nat) \<le> 57)"

definition parse_digits :: "string \<Rightarrow> int option" where
  "parse_digits s =
     (if s \<noteq> [] \<and> list_all is_digit s
      then Some (foldl (\<lambda>v c. 10 * v + (int (of_char c) - 48)) 0 s)
      else None)"

section \<open>Source records (Realtime Database)\<close>

text \<open>
  \<^verbatim>\<open>interface RTDBDevice\<close> and \<^verbatim>\<open>interface RTDBUser\<close> of the migration script
  (\<^verbatim>\<open>DeviceData\<close> of the alert script has the same fields). A field that the code
  tests for presence is optional here.
\<close>

record rtdb_device =
  name :: string
  isOn :: "bool option"
  energyLimit :: "rat option"
  last_updated :: "int option"
  user_ids :: "bool js_object option"

record rtdb_user =
  email :: string
  username :: string
  devices :: "string js_object option"

text \<open>
  A stored reading: an object from field name to number. \<open>None\<close> stands for a falsy
  stored value (the \<^verbatim>\<open>!reading\<close> test of the migration).
\<close>

type_synonym rtdb_reading = "rat js_object option"

section \<open>Destination records (Firestore)\<close>

text \<open>
  The \<^verbatim>\<open>last_updated\<close> field of a destination device is either the value carried over
  from the source or the sentinel \<^verbatim>\<open>FieldValue.serverTimestamp()\<close>, which the server
  replaces by its clock at the time of the write.
\<close>

datatype fs_time = Source_time int | Server_timestamp int

record item_doc =
  fs_name :: string
  fs_isOn :: bool
  fs_energyLimit :: rat
  fs_last_updated :: fs_time
  fs_user_ids :: "string list"

record user_doc =
  fs_email :: string
  fs_username :: string
  fs_devices :: "string js_object"

record daily_doc =
  fs_current :: rat
  fs_energy :: rat
  fs_frequency :: rat
  fs_power :: rat
  fs_power_factor :: rat
  fs_voltage :: rat

section \<open>Record transformer\<close>

text \<open>
  \<^verbatim>\<open>device.user_ids ? Object.keys(device.user_ids).filter(id => id) : []\<close>
  (migrateDevices): the empty string is the only falsy string.
\<close>

definition userIdsArray :: "rtdb_device \<Rightarrow> string list" where
  "userIdsArray device =
     (case user_ids device of
        Some m \<Rightarrow> filter (\<lambda>id. id \<noteq> []) (Object_keys m)
      | None \<Rightarrow> [])"

text \<open>
  The document that migrateDevices passes to \<^verbatim>\<open>set\<close>; \<open>now\<close> is the server clock
  that resolves the \<^verbatim>\<open>serverTimestamp()\<close> sentinel.
\<close>

definition device_doc :: "int \<Rightarrow> rtdb_device \<Rightarrow> item_doc" where
  "device_doc now device =
     \<lparr> fs_name = name device,
       fs_isOn = (case isOn device of Some b \<Rightarrow> b | None \<Rightarrow> True),
       fs_energyLimit = or_zero (energyLimit device),
       fs_last_updated =
         (case last_updated device of
            Some t \<Rightarrow> (if t \<noteq> 0 then Source_time t else Server_timestamp now)
          | None \<Rightarrow> Server_timestamp now),
       fs_user_ids = userIdsArray device \<rparr>"

definition user_doc_of :: "rtdb_user \<Rightarrow> user_doc" where
  "user_doc_of user =
     \<lparr> fs_email = email user,
       fs_username = username user,
       fs_devices = (case devices user of Some d \<Rightarrow> d | None \<Rightarrow> []) \<rparr>"

definition daily_doc_of :: "rat js_object \<Rightarrow> daily_doc" where
  "daily_doc_of reading =
     \<lparr> fs_current = or_zero (get_prop reading ''current''),
       fs_energy = or_zero (get_prop reading ''energy''),
       fs_frequency = or_zero (get_prop reading ''frequency''),
       fs_power = or_zero (get_prop reading ''power''),
       fs_power_factor = or_zero (get_prop reading ''power_factor''),
       fs_voltage = or_zero (get_prop reading ''voltage'') \<rparr>"

section \<open>Telegram transport\<close>

text \<open>
  What one \<^verbatim>\<open>fetch\<close> of \<^verbatim>\<open>sendMessage\<close> followed by \<^verbatim>\<open>response.json()\<close> can do:
  the fetch rejects, the body is not JSON, the body is JSON \<^verbatim>\<open>null\<close> (reading
  \<^verbatim>\<open>data.ok\<close> is then a TypeError), or the body is an object whose \<^verbatim>\<open>ok\<close> field is
  truthy or falsy.
\<close>

datatype api_reply = Fetch_throws | Json_throws | Json_null | Json_ok bool

text \<open>The body of the \<^verbatim>\<open>try\<close> block of sendTelegramMessage.\<close>

definition sendTelegramMessage_try :: "api_reply \<Rightarrow> exn + bool" where
  "sendTelegramMessage_try reply =
     (case reply of
        Fetch_throws \<Rightarrow> Inl Read_failed
      | Json_throws \<Rightarrow> Inl Read_failed
      | Json_null \<Rightarrow> Inl Type_error
      | Json_ok ok \<Rightarrow> (if \<not> ok then Inr False else Inr True))"

text \<open>
  sendTelegramMessage: \<open>token\<close> is \<^verbatim>\<open>process.env.TELEGRAM_BOT_TOKEN\<close> (\<open>None\<close> when
  unset; the empty string is falsy too), \<open>transport\<close> answers the request for a chat
  and a text.
\<close>

definition sendTelegramMessage ::
  "string option \<Rightarrow> (int \<Rightarrow> string \<Rightarrow> api_reply) \<Rightarrow> int \<Rightarrow> string \<Rightarrow> exn + bool" where
  "sendTelegramMessage token transport chatId text =
     (if token = None \<or> token = Some [] then Inr False
      else (case sendTelegramMessage_try (transport chatId text) of
              Inl e \<Rightarrow> Inr False
            | Inr b \<Rightarrow> Inr b))"

section \<open>The two stores and their failures\<close>

text \<open>
  Every call of the migration script that reaches a store, by call site. The environment
  says which of them reject; a rejected read or write leaves the store as it was.
\<close>

datatype io_op =
    Read_rtdb string
  | Set_doc string string
  | Commit_batch nat
  | Validate_read string

text \<open>
  \<open>Read_rtdb path\<close> is \<^verbatim>\<open>rtdb.ref(path).once('value')\<close> in a migrator,
  \<open>Set_doc collection id\<close> is \<^verbatim>\<open>firestore.collection(..).doc(id).set(..)\<close>,
  \<open>Commit_batch n\<close> is the call of \<^verbatim>\<open>batch.commit()\<close> that follows \<open>n\<close> earlier ones,
  \<open>Validate_read what\<close> is one of the six reads of validateMigration.
  \<open>server_time id\<close> is the server clock when the device document \<open>id\<close> is written.
\<close>

record env =
  fails :: "io_op \<Rightarrow> bool"
  server_time :: "string \<Rightarrow> int"

record chat_entry =
  chatId :: int
  chat_username :: "string option"
  firstName :: "string option"
  lastActive :: int
  addedAt :: int

record rtdb =
  rtdb_users :: "rtdb_user js_object option"
  rtdb_devices :: "rtdb_device js_object option"
  rtdb_readings_daily :: "rtdb_reading js_object js_object option"
  rtdb_active_chats :: "chat_entry js_object option"
  rtdb_last_update_id :: "int option"

record telegram_doc =
  chats :: "chat_entry js_object"
  last_update_id :: int

text \<open>
  The destination: the collections \<^verbatim>\<open>user-data\<close> and \<^verbatim>\<open>item-data\<close>, the
  sub-collection \<^verbatim>\<open>item-data/{id}/daily\<close>, the document \<^verbatim>\<open>telegram/active_chats\<close>,
  and the commit requests received so far (number of writes, accepted or not).
\<close>

record firestore =
  user_data :: "string \<rightharpoonup> user_doc"
  item_data :: "string \<rightharpoonup> item_doc"
  daily :: "string \<Rightarrow> string \<rightharpoonup> daily_doc"
  telegram_active_chats :: "telegram_doc option"
  commits :: "(nat \<times> bool) list"

text \<open>\<^verbatim>\<open>snapshot.val() || {}\<close>\<close>

definition val_or_empty :: "'v js_object option \<Rightarrow> 'v js_object" where
  "val_or_empty v = (case v of Some obj \<Rightarrow> obj | None \<Rightarrow> [])"

section \<open>Collection migrators for users and devices\<close>

record counters =
  errorCount :: nat

record tally = counters +
  migratedCount :: nat

fun migrateUsers_loop ::
  "env \<Rightarrow> rtdb_user js_object \<Rightarrow> tally \<times> firestore \<Rightarrow> tally \<times> firestore" where
  "migrateUsers_loop e [] s = s"
| "migrateUsers_loop e ((userId, user) # rest) (t, fs) =
     (if fails e (Set_doc ''user-data'' userId)
      then migrateUsers_loop e rest (t\<lparr>errorCount := errorCount t + 1\<rparr>, fs)
      else migrateUsers_loop e rest
             (t\<lparr>migratedCount := migratedCount t + 1\<rparr>,
              fs\<lparr>user_data := (user_data fs)(userId \<mapsto> user_doc_of user)\<rparr>))"

definition migrateUsers :: "env \<Rightarrow> rtdb \<Rightarrow> firestore \<Rightarrow> (exn + tally) \<times> firestore" where
  "migrateUsers e src fs =
     (if fails e (Read_rtdb ''users'') then (Inl Read_failed, fs)
      else (case migrateUsers_loop e (val_or_empty (rtdb_users src))
                   (\<lparr>errorCount = 0, migratedCount = 0\<rparr>, fs) of
              (t, fs') \<Rightarrow> (Inr t, fs')))"

fun migrateDevices_loop ::
  "env \<Rightarrow> rtdb_device js_object \<Rightarrow> tally \<times> firestore \<Rightarrow> tally \<times> firestore" where
  "migrateDevices_loop e [] s = s"
| "migrateDevices_loop e ((deviceId, device) # rest) (t, fs) =
     (if fails e (Set_doc ''item-data'' deviceId)
      then migrateDevices_loop e rest (t\<lparr>errorCount := errorCount t + 1\<rparr>, fs)
      else migrateDevices_loop e rest
             (t\<lparr>migratedCount := migratedCount t + 1\<rparr>,
              fs\<lparr>item_data := (item_data fs)(deviceId \<mapsto> device_doc (server_time e deviceId) device)\<rparr>))"

definition migrateDevices :: "env \<Rightarrow> rtdb \<Rightarrow> firestore \<Rightarrow> (exn + tally) \<times> firestore" where
  "migrateDevices e src fs =
     (if fails e (Read_rtdb ''devices'') then (Inl Read_failed, fs)
      else (case migrateDevices_loop e (val_or_empty (rtdb_devices src))
                   (\<lparr>errorCount = 0, migratedCount = 0\<rparr>, fs) of
              (t, fs') \<Rightarrow> (Inr t, fs')))"

section \<open>Batch writer and the readings migrator\<close>

text \<open>
  The \<^verbatim>\<open>WriteBatch\<close> that \<^verbatim>\<open>firestore.batch()\<close> of the Admin SDK returns: the writes
  queued by \<^verbatim>\<open>set\<close>, as (device, timestamp, document), and whether the batch has been
  handed to \<^verbatim>\<open>commit\<close>. A batch that has been handed to \<^verbatim>\<open>commit\<close> rejects every later
  \<^verbatim>\<open>set\<close> ("Cannot modify a WriteBatch that has been committed"), whether the commit
  succeeded or not; \<^verbatim>\<open>commit\<close> itself may be called again and sends the same writes.
\<close>

type_synonym daily_write = "string \<times> string \<times> daily_doc"

record write_batch =
  writes :: "daily_write list"
  committed :: bool

definition new_batch :: write_batch where
  "new_batch = \<lparr> writes = [], committed = False \<rparr>"

definition batch_set :: "write_batch \<Rightarrow> daily_write \<Rightarrow> exn + write_batch" where
  "batch_set b w =
     (if committed b then Inl Batch_already_committed
      else Inr (b\<lparr>writes := writes b @ [w]\<rparr>))"

definition apply_write :: "daily_write \<Rightarrow> firestore \<Rightarrow> firestore" where
  "apply_write w fs =
     (case w of (deviceId, timestamp, d) \<Rightarrow>
        fs\<lparr>daily := (daily fs)(deviceId := (daily fs deviceId)(timestamp \<mapsto> d))\<rparr>)"

text \<open>
  \<^verbatim>\<open>batch.commit()\<close>: the request is recorded; when it is accepted, all writes of the
  batch are applied. The result says whether the promise rejected.
\<close>

definition batch_commit :: "env \<Rightarrow> write_batch \<Rightarrow> firestore \<Rightarrow> bool \<times> write_batch \<times> firestore" where
  "batch_commit e b fs =
     (let rejected = fails e (Commit_batch (length (commits fs)));
          fs1 = fs\<lparr>commits := commits fs @ [(length (writes b), \<not> rejected)]\<rparr>
      in (rejected, b\<lparr>committed := True\<rparr>,
          (if rejected then fs1 else fold apply_write (writes b) fs1)))"

text \<open>The variables of migrateDailyReadings, with the destination store.\<close>

record readings_vars = counters +
  totalReadings :: nat
  totalDevices :: nat
  batch :: write_batch
  batchCount :: nat
  deviceReadingCount :: nat
  store :: firestore

text \<open>
  \<^verbatim>\<open>if (batchCount >= 500) { try { await batch.commit(); batchCount = 0 }
  catch { errorCount++ } }\<close>
\<close>

definition commit_full :: "env \<Rightarrow> readings_vars \<Rightarrow> readings_vars" where
  "commit_full e s =
     (if batchCount s \<ge> 500 then
        (case batch_commit e (batch s) (store s) of
           (rejected, b, fs) \<Rightarrow>
             (if rejected then s\<lparr>batch := b, store := fs, errorCount := errorCount s + 1\<rparr>
              else s\<lparr>batch := b, store := fs, batchCount := 0\<rparr>))
      else s)"

text \<open>
  \<^verbatim>\<open>if (batchCount > 0) { try { await batch.commit() } catch { errorCount++ } }\<close>
\<close>

definition commit_remaining :: "env \<Rightarrow> readings_vars \<Rightarrow> readings_vars" where
  "commit_remaining e s =
     (if batchCount s > 0 then
        (case batch_commit e (batch s) (store s) of
           (rejected, b, fs) \<Rightarrow>
             (if rejected then s\<lparr>batch := b, store := fs, errorCount := errorCount s + 1\<rparr>
              else s\<lparr>batch := b, store := fs\<rparr>))
      else s)"

text \<open>\<^verbatim>\<open>!reading || Object.keys(reading).length === 0\<close>\<close>

definition empty_reading :: "rtdb_reading \<Rightarrow> bool" where
  "empty_reading reading =
     (case reading of None \<Rightarrow> True | Some r \<Rightarrow> length (Object_keys r) = 0)"

text \<open>
  The loop over the readings of one device. An exception of \<^verbatim>\<open>batch.set\<close> is not
  caught there: the loop stops and returns it with the variables as they are.
\<close>

fun readings_loop ::
  "env \<Rightarrow> string \<Rightarrow> rtdb_reading js_object \<Rightarrow> readings_vars \<Rightarrow> exn option \<times> readings_vars" where
  "readings_loop e deviceId [] s = (None, s)"
| "readings_loop e deviceId ((timestamp, reading) # rest) s =
     (if empty_reading reading then readings_loop e deviceId rest s
      else
        (case batch_set (batch s) (deviceId, timestamp, daily_doc_of (the reading)) of
           Inl x \<Rightarrow> (Some x, s)
         | Inr b \<Rightarrow>
             readings_loop e deviceId rest
               (commit_full e
                  (s\<lparr>batch := b, batchCount := batchCount s + 1,
                     deviceReadingCount := deviceReadingCount s + 1\<rparr>))))"

text \<open>One iteration of the loop over the devices of \<^verbatim>\<open>readings_daily\<close>.\<close>

definition migrate_device_readings ::
  "env \<Rightarrow> string \<Rightarrow> rtdb_reading js_object \<Rightarrow> readings_vars \<Rightarrow> exn option \<times> readings_vars" where
  "migrate_device_readings e deviceId readingsMap s =
     (case readings_loop e deviceId readingsMap
             (s\<lparr>batch := new_batch, batchCount := 0, deviceReadingCount := 0\<rparr>) of
        (Some x, s1) \<Rightarrow> (Some x, s1)
      | (None, s1) \<Rightarrow>
          (let s2 = commit_remaining e s1
           in (None, s2\<lparr>totalReadings := totalReadings s2 + deviceReadingCount s2,
                         totalDevices := totalDevices s2 + 1\<rparr>)))"

fun readings_devices_loop ::
  "env \<Rightarrow> rtdb_reading js_object js_object \<Rightarrow> readings_vars \<Rightarrow> exn option \<times> readings_vars" where
  "readings_devices_loop e [] s = (None, s)"
| "readings_devices_loop e ((deviceId, readingsMap) # rest) s =
     (case migrate_device_readings e deviceId readingsMap s of
        (Some x, s1) \<Rightarrow> (Some x, s1)
      | (None, s1) \<Rightarrow> readings_devices_loop e rest s1)"

record readings_result = counters +
  res_totalReadings :: nat
  res_totalDevices :: nat

text \<open>
  The variables when migrateDailyReadings starts. The per-device variables are declared
  inside the loop over the devices and get their first values there.
\<close>

definition start_vars :: "firestore \<Rightarrow> readings_vars" where
  "start_vars fs =
     \<lparr> errorCount = 0, totalReadings = 0, totalDevices = 0, batch = new_batch,
       batchCount = 0, deviceReadingCount = 0, store = fs \<rparr>"

definition migrateDailyReadings ::
  "env \<Rightarrow> rtdb \<Rightarrow> firestore \<Rightarrow> (exn + readings_result) \<times> firestore" where
  "migrateDailyReadings e src fs =
     (if fails e (Read_rtdb ''readings_daily'') then (Inl Read_failed, fs)
      else
        (case readings_devices_loop e (val_or_empty (rtdb_readings_daily src))
                (start_vars fs) of
           (Some x, s) \<Rightarrow> (Inl x, store s)
         | (None, s) \<Rightarrow>
             (Inr \<lparr> errorCount = errorCount s, res_totalReadings = totalReadings s,
                    res_totalDevices = totalDevices s \<rparr>, store s)))"

section \<open>Notification registry migrator, validator, orchestrator\<close>

record telegram_result =
  chatCount :: nat
  error :: "exn option"

text \<open>The whole body of migrateTelegramData is inside one \<^verbatim>\<open>try\<close>.\<close>

definition migrateTelegramData :: "env \<Rightarrow> rtdb \<Rightarrow> firestore \<Rightarrow> telegram_result \<times> firestore" where
  "migrateTelegramData e src fs =
     (if fails e (Read_rtdb ''telegram/active_chats'')
      then (\<lparr>chatCount = 0, error = Some Read_failed\<rparr>, fs)
      else if fails e (Read_rtdb ''telegram/last_update_id'')
      then (\<lparr>chatCount = 0, error = Some Read_failed\<rparr>, fs)
      else if fails e (Set_doc ''telegram'' ''active_chats'')
      then (\<lparr>chatCount = 0, error = Some Write_failed\<rparr>, fs)
      else
        (let chs = val_or_empty (rtdb_active_chats src);
             lastUpdateId = (case rtdb_last_update_id src of Some v \<Rightarrow> v | None \<Rightarrow> 0)
         in (\<lparr>chatCount = length (Object_keys chs), error = None\<rparr>,
             fs\<lparr>telegram_active_chats :=
                   Some \<lparr>chats = chs, last_update_id = lastUpdateId\<rparr>\<rparr>)))"

text \<open>The lines that validateMigration prints, with the two counts and their comparison.\<close>

datatype log_line =
    Users_line nat nat bool
  | Devices_line nat nat bool
  | Sample_line string nat nat bool
  | Validation_passed
  | Validation_failed

text \<open>
  The sample check of validateMigration, for the first key of the source devices:
  \<^verbatim>\<open>if (firstDeviceId) { ... console.log(...) }\<close>. It only prints.
\<close>

definition sample_check :: "env \<Rightarrow> rtdb \<Rightarrow> firestore \<Rightarrow> string list \<Rightarrow> exn + log_line list" where
  "sample_check e src fs keys =
     (case keys of
        [] \<Rightarrow> Inr []
      | firstDeviceId # _ \<Rightarrow>
          (if firstDeviceId = [] then Inr []
           else if fails e (Validate_read ''readings_daily'') then Inl Read_failed
           else
             (let rtdbReadingsCount =
                    length (Object_keys (val_or_empty
                      (case rtdb_readings_daily src of
                         None \<Rightarrow> None
                       | Some m \<Rightarrow> get_prop m firstDeviceId)))
              in if fails e (Validate_read ''daily'') then Inl Read_failed
                 else
                   (let firestoreReadingsCount = card (dom (daily fs firstDeviceId))
                    in Inr [Sample_line firstDeviceId rtdbReadingsCount firestoreReadingsCount
                              (rtdbReadingsCount = firestoreReadingsCount)]))))"

definition validateMigration :: "env \<Rightarrow> rtdb \<Rightarrow> firestore \<Rightarrow> exn + (log_line list \<times> bool)" where
  "validateMigration e src fs =
     (if fails e (Validate_read ''users'') then Inl Read_failed
      else if fails e (Validate_read ''user-data'') then Inl Read_failed
      else if fails e (Validate_read ''devices'') then Inl Read_failed
      else if fails e (Validate_read ''item-data'') then Inl Read_failed
      else
        (let rtdbUsersCount = length (Object_keys (val_or_empty (rtdb_users src)));
             firestoreUsersCount = card (dom (user_data fs));
             rtdbDevicesCount = length (Object_keys (val_or_empty (rtdb_devices src)));
             firestoreDevicesCount = card (dom (item_data fs));
             counts_log =
               [Users_line rtdbUsersCount firestoreUsersCount
                  (rtdbUsersCount = firestoreUsersCount),
                Devices_line rtdbDevicesCount firestoreDevicesCount
                  (rtdbDevicesCount = firestoreDevicesCount)]
         in (case sample_check e src fs (Object_keys (val_or_empty (rtdb_devices src))) of
               Inl x \<Rightarrow> Inl x
             | Inr sample_log \<Rightarrow>
                 (let isValid = (rtdbUsersCount = firestoreUsersCount
                                 \<and> rtdbDevicesCount = firestoreDevicesCount)
                  in Inr (counts_log @ sample_log
                            @ [if isValid then Validation_passed else Validation_failed],
                          isValid)))))"

text \<open>The \<^verbatim>\<open>try\<close> block of migrate up to the call of \<^verbatim>\<open>process.exit\<close>.\<close>

definition migrate_try :: "env \<Rightarrow> rtdb \<Rightarrow> firestore \<Rightarrow> (exn + bool) \<times> firestore" where
  "migrate_try e src fs =
     (case migrateUsers e src fs of
        (Inl x, fs1) \<Rightarrow> (Inl x, fs1)
      | (Inr usersResult, fs1) \<Rightarrow>
     (case migrateDevices e src fs1 of
        (Inl x, fs2) \<Rightarrow> (Inl x, fs2)
      | (Inr devicesResult, fs2) \<Rightarrow>
     (case migrateDailyReadings e src fs2 of
        (Inl x, fs3) \<Rightarrow> (Inl x, fs3)
      | (Inr readingsResult, fs3) \<Rightarrow>
     (case migrateTelegramData e src fs3 of
        (telegramResult, fs4) \<Rightarrow>
     (case validateMigration e src fs4 of
        Inl x \<Rightarrow> (Inl x, fs4)
      | Inr (lg, isValid) \<Rightarrow> (Inr isValid, fs4))))))"

text \<open>migrate: the exit code of the process and the destination store it leaves.\<close>

definition migrate :: "env \<Rightarrow> rtdb \<Rightarrow> firestore \<Rightarrow> nat \<times> firestore" where
  "migrate e src fs =
     (case migrate_try e src fs of
        (Inl x, fs') \<Rightarrow> (1, fs')
      | (Inr isValid, fs') \<Rightarrow> ((if isValid then 0 else 1), fs'))"

section \<open>Alert evaluator\<close>

subsection \<open>Numbers\<close>

text \<open>
  A JavaScript number is an IEEE 754 double. A finite one is modelled by its value, a
  rational number; the stored energies and limits are such values. The result of an
  arithmetic operation is the exact result rounded to the nearest double, to the one with
  the even significand on a tie, and an infinity when the rounded magnitude reaches
  \<open>2\<^sup>1\<^sup>0\<^sup>2\<^sup>4\<close>.
\<close>

datatype number =
    Finite rat
  | Infinity
  | Minus_infinity

text \<open>The number of binary digits of \<open>n\<close>.\<close>

fun bit_length :: "nat \<Rightarrow> nat" where
  "bit_length n = (if n = 0 then 0 else Suc (bit_length (n div 2)))"

declare bit_length.simps [simp del]

text \<open>For \<open>y > 0\<close>, the integer \<open>e\<close> with \<open>2\<^sup>e \<le> y < 2\<^sup>e\<^sup>+\<^sup>1\<close>.\<close>

definition floor_log2 :: "rat \<Rightarrow> int" where
  "floor_log2 y =
     (if 1 \<le> y then int (bit_length (nat \<lfloor>y\<rfloor>)) - 1
      else (let z = 1 / y;
                k = bit_length (nat \<lfloor>z\<rfloor>) - 1
            in if z = 2 ^ k then - int k else - int k - 1))"

definition pow2 :: "int \<Rightarrow> rat" where
  "pow2 e = (if 0 \<le> e then 2 ^ nat e else 1 / 2 ^ nat (- e))"

text \<open>The integer nearest to \<open>x\<close>, the even one on a tie.\<close>

definition round_half_even :: "rat \<Rightarrow> int" where
  "round_half_even x =
     (let f = \<lfloor>x\<rfloor>;
          r = x - of_int f
      in if r < 1 / 2 then f
         else if 1 / 2 < r then f + 1
         else if even f then f
         else f + 1)"

text \<open>
  Rounding to a double: 53 significant binary digits at the exponent of the number, the
  spacing \<open>2\<^sup>-\<^sup>1\<^sup>0\<^sup>7\<^sup>4\<close> of the subnormal numbers below \<open>2\<^sup>-\<^sup>1\<^sup>0\<^sup>2\<^sup>2\<close>.
\<close>

definition round_to_double :: "rat \<Rightarrow> number" where
  "round_to_double x =
     (if x = 0 then Finite 0
      else (let y = \<bar>x\<bar>;
                e = max (floor_log2 y) (- 1022);
                ulp = pow2 (e - 52);
                r = of_int (round_half_even (y / ulp)) * ulp
            in if pow2 1024 \<le> r then (if 0 < x then Infinity else Minus_infinity)
               else Finite (if 0 < x then r else - r)))"

text \<open>\<^verbatim>\<open>a - b\<close> for two finite numbers.\<close>

definition number_minus :: "rat \<Rightarrow> rat \<Rightarrow> number" where
  "number_minus a b = round_to_double (a - b)"

subsection \<open>Number formatting and the alert text\<close>

text \<open>
  \<^verbatim>\<open>x.toFixed(2)\<close> for a finite number: the sign, then, for a magnitude below
  \<open>10\<^sup>2\<^sup>1\<close>, the integer \<open>n\<close> nearest to \<open>|x| * 100\<close>, the larger one on a tie, printed with
  a point before its last two digits. From \<open>10\<^sup>2\<^sup>1\<close> the magnitude is printed by
  \<^verbatim>\<open>Number.prototype.toString\<close> (exponent notation), which is the parameter \<open>toString\<close>.
\<close>

definition toFixed2 :: "(rat \<Rightarrow> string) \<Rightarrow> rat \<Rightarrow> string" where
  "toFixed2 toString x =
     (let y = \<bar>x\<bar>
      in (if x < 0 then ''-'' else '''')
         @ (if 10 ^ 21 \<le> y then toString y
            else (let n = nat \<lfloor>y * 100 + 1 / 2\<rfloor>
                  in decimal (n div 100) @ ''.''
                     @ [digit_char (n mod 100 div 10), digit_char (n mod 10)])))"

text \<open>\<^verbatim>\<open>x.toFixed(2)\<close> for the result of an operation.\<close>

definition number_toFixed2 :: "(rat \<Rightarrow> string) \<Rightarrow> number \<Rightarrow> string" where
  "number_toFixed2 toString x =
     (case x of
        Finite q \<Rightarrow> toFixed2 toString q
      | Infinity \<Rightarrow> ''Infinity''
      | Minus_infinity \<Rightarrow> ''-Infinity'')"

definition newline :: string where
  "newline = [CHR 0x0A]"

text \<open>The warning sign U+26A0 U+FE0F in UTF-8.\<close>

definition warning_sign :: string where
  "warning_sign = [CHR 0xE2, CHR 0x9A, CHR 0xA0, CHR 0xEF, CHR 0xB8, CHR 0x8F]"

text \<open>
  The message of sendEnergyAlert after \<^verbatim>\<open>.trim()\<close>; \<open>timestamp\<close> is the formatted
  current time.
\<close>

definition alert_message :: "(rat \<Rightarrow> string) \<Rightarrow> string \<Rightarrow> rat \<Rightarrow> rat \<Rightarrow> string \<Rightarrow> string" where
  "alert_message toString deviceName currentEnergy limit timestamp =
     (let overBy = number_minus currentEnergy limit
      in warning_sign @ '' <b>Energy Limit Exceeded</b>'' @ newline @ newline
         @ ''Device: <b>'' @ deviceName @ ''</b>'' @ newline
         @ ''Current: <b>'' @ toFixed2 toString currentEnergy @ '' kWh</b>'' @ newline
         @ ''Limit: <b>'' @ toFixed2 toString limit @ '' kWh</b>'' @ newline
         @ ''Over by: <b>'' @ number_toFixed2 toString overBy @ '' kWh</b>'' @ newline @ newline
         @ ''Time: '' @ timestamp @ '' UTC'' @ newline @ newline
         @ ''Please check your device to reduce energy consumption.'')"

subsection \<open>Environment of one run\<close>

text \<open>
  \<open>rest_fails path\<close>: the REST read of \<open>path\<close> throws (the request fails, or the
  status is not ok). \<open>parseInt\<close> and \<open>parseInt10\<close> are the JavaScript functions
  \<^verbatim>\<open>parseInt(s)\<close> and \<^verbatim>\<open>parseInt(s, 10)\<close>, with \<open>None\<close> for \<^verbatim>\<open>NaN\<close>, and
  \<open>number_toString\<close> is \<^verbatim>\<open>Number.prototype.toString\<close> on a finite number.
  \<open>telegram i\<close> answers the \<open>i\<close>-th request to Telegram of the run, and \<open>clock i\<close> is
  the formatted time when that request is built.
\<close>

record alert_env =
  rest_fails :: "string \<Rightarrow> bool"
  parseInt :: "string \<Rightarrow> int option"
  parseInt10 :: "string \<Rightarrow> int option"
  number_toString :: "rat \<Rightarrow> string"
  telegram :: "nat \<Rightarrow> int option \<Rightarrow> string \<Rightarrow> api_reply"
  clock :: "nat \<Rightarrow> string"

text \<open>getFirebaseData, at the four kinds of path the script reads.\<close>

definition get_active_chats :: "alert_env \<Rightarrow> rtdb \<Rightarrow> exn + chat_entry js_object option" where
  "get_active_chats e db =
     (if rest_fails e ''/telegram/active_chats'' then Inl Read_failed
      else Inr (rtdb_active_chats db))"

definition get_devices :: "alert_env \<Rightarrow> rtdb \<Rightarrow> exn + rtdb_device js_object option" where
  "get_devices e db =
     (if rest_fails e ''/devices'' then Inl Read_failed else Inr (rtdb_devices db))"

definition get_readings :: "alert_env \<Rightarrow> rtdb \<Rightarrow> string \<Rightarrow> exn + rtdb_reading js_object option" where
  "get_readings e db deviceId =
     (if rest_fails e (''/readings_daily/'' @ deviceId) then Inl Read_failed
      else Inr (case rtdb_readings_daily db of None \<Rightarrow> None | Some m \<Rightarrow> get_prop m deviceId))"

definition get_user :: "alert_env \<Rightarrow> rtdb \<Rightarrow> string \<Rightarrow> exn + rtdb_user option" where
  "get_user e db userId =
     (if rest_fails e (''/users/'' @ userId) then Inl Read_failed
      else Inr (case rtdb_users db of None \<Rightarrow> None | Some m \<Rightarrow> get_prop m userId))"

subsection \<open>Latest reading\<close>

text \<open>
  \<^verbatim>\<open>Array.prototype.sort(comparefn)\<close> is a stable sort; it is modelled as insertion
  sort, which puts an element before the first one it does not compare greater than.
  (For a comparator that is not a consistent order, JavaScript leaves the result to the
  implementation.) A comparator value \<^verbatim>\<open>NaN\<close> counts as 0.
\<close>

fun insert_sorted :: "('a \<Rightarrow> 'a \<Rightarrow> int) \<Rightarrow> 'a \<Rightarrow> 'a list \<Rightarrow> 'a list" where
  "insert_sorted cmp x [] = [x]"
| "insert_sorted cmp x (y # ys) =
     (if cmp x y \<le> 0 then x # y # ys else y # insert_sorted cmp x ys)"

definition array_sort :: "('a \<Rightarrow> 'a \<Rightarrow> int) \<Rightarrow> 'a list \<Rightarrow> 'a list" where
  "array_sort cmp xs = foldr (insert_sorted cmp) xs []"

text \<open>\<^verbatim>\<open>(a, b) => parseInt(b) - parseInt(a)\<close>\<close>

definition newest_first :: "alert_env \<Rightarrow> string \<Rightarrow> string \<Rightarrow> int" where
  "newest_first e a b =
     (case (parseInt e b, parseInt e a) of
        (Some y, Some x) \<Rightarrow> y - x
      | _ \<Rightarrow> 0)"

text \<open>
  \<^verbatim>\<open>latestReading.energy\<close>, where \<open>None\<close> is \<^verbatim>\<open>undefined\<close> (calling \<^verbatim>\<open>toFixed\<close> on
  it is a TypeError).
\<close>

definition energy_of :: "rtdb_reading option \<Rightarrow> rat option" where
  "energy_of latestReading =
     (case latestReading of
        Some (Some r) \<Rightarrow> get_prop r ''energy''
      | _ \<Rightarrow> None)"

subsection \<open>Sending\<close>

text \<open>
  sendEnergyAlert of the alert script: \<^verbatim>\<open>return data.ok\<close> inside the \<^verbatim>\<open>try\<close>,
  \<^verbatim>\<open>return false\<close> in the \<^verbatim>\<open>catch\<close>; the result is used for its truthiness.
\<close>

definition sendEnergyAlert :: "api_reply \<Rightarrow> bool" where
  "sendEnergyAlert reply =
     (case reply of
        Fetch_throws \<Rightarrow> False
      | Json_throws \<Rightarrow> False
      | Json_null \<Rightarrow> False
      | Json_ok ok \<Rightarrow> ok)"

text \<open>
  The counters of testEnergyAlerts, and the requests made to Telegram so far (chat and
  text), in order.
\<close>

record alert_vars =
  devicesChecked :: nat
  devicesOverLimit :: nat
  alertsSent :: nat
  requests :: "(int option \<times> string) list"

text \<open>\<^verbatim>\<open>for (const chatId of chatIds) { ... }\<close>\<close>

fun broadcast ::
  "alert_env \<Rightarrow> int option list \<Rightarrow> string \<Rightarrow> rat \<Rightarrow> rat \<Rightarrow> alert_vars \<Rightarrow> alert_vars" where
  "broadcast e [] deviceDisplayName energy limit s = s"
| "broadcast e (chat # rest) deviceDisplayName energy limit s =
     (let i = length (requests s);
          message = alert_message (number_toString e) deviceDisplayName energy limit (clock e i);
          sent = sendEnergyAlert (telegram e i chat message);
          s1 = s\<lparr>requests := requests s @ [(chat, message)]\<rparr>
      in broadcast e rest deviceDisplayName energy limit
           (if sent then s1\<lparr>alertsSent := alertsSent s1 + 1\<rparr> else s1))"

subsection \<open>One device\<close>

text \<open>
  The display name: the custom name that the first user of the device has given it, if
  that user exists and the name is a non-empty string, else the name of the device. The
  read of the user can throw.
\<close>

definition resolve_name :: "alert_env \<Rightarrow> rtdb \<Rightarrow> string \<Rightarrow> rtdb_device \<Rightarrow> exn + string" where
  "resolve_name e db deviceId device =
     (case user_ids device of
        None \<Rightarrow> Inr (name device)
      | Some ids \<Rightarrow>
          (case Object_keys ids of
             [] \<Rightarrow> Inr (name device)
           | userId # _ \<Rightarrow>
               (case get_user e db userId of
                  Inl x \<Rightarrow> Inl x
                | Inr None \<Rightarrow> Inr (name device)
                | Inr (Some userData) \<Rightarrow>
                    (case devices userData of
                       None \<Rightarrow> Inr (name device)
                     | Some ds \<Rightarrow>
                         (case get_prop ds deviceId of
                            None \<Rightarrow> Inr (name device)
                          | Some customName \<Rightarrow>
                              (if customName \<noteq> [] then Inr customName
                               else Inr (name device)))))))"

text \<open>
  The \<^verbatim>\<open>try\<close> block of the loop body, for a device with the limit \<open>limit\<close>: the
  exception that ends it, if any, and the variables at that point.
\<close>

definition check_device_try ::
  "alert_env \<Rightarrow> rtdb \<Rightarrow> int option list \<Rightarrow> string \<Rightarrow> rtdb_device \<Rightarrow> rat \<Rightarrow> alert_vars
     \<Rightarrow> exn option \<times> alert_vars" where
  "check_device_try e db chatIds deviceId device limit s =
     (case get_readings e db deviceId of
        Inl x \<Rightarrow> (Some x, s)
      | Inr None \<Rightarrow> (None, s)
      | Inr (Some readings) \<Rightarrow>
          (case array_sort (newest_first e) (Object_keys readings) of
             [] \<Rightarrow> (None, s)
           | latestTimestamp # _ \<Rightarrow>
               (case energy_of (get_prop readings latestTimestamp) of
                  None \<Rightarrow> (Some Type_error, s)
                | Some energy \<Rightarrow>
                    (if energy > limit then
                       (let s1 = s\<lparr>devicesOverLimit := devicesOverLimit s + 1\<rparr>
                        in (case resolve_name e db deviceId device of
                              Inl x \<Rightarrow> (Some x, s1)
                            | Inr deviceDisplayName \<Rightarrow>
                                (None, broadcast e chatIds deviceDisplayName energy limit s1)))
                     else (None, s)))))"

text \<open>The loop body: count the device, skip it without a limit, catch what the rest throws.\<close>

definition check_device ::
  "alert_env \<Rightarrow> rtdb \<Rightarrow> int option list \<Rightarrow> string \<times> rtdb_device \<Rightarrow> alert_vars \<Rightarrow> alert_vars" where
  "check_device e db chatIds entry s =
     (case entry of (deviceId, device) \<Rightarrow>
        (let s0 = s\<lparr>devicesChecked := devicesChecked s + 1\<rparr>
         in (case energyLimit device of
               None \<Rightarrow> s0
             | Some limit \<Rightarrow>
                 (if limit = 0 then s0
                  else snd (check_device_try e db chatIds deviceId device limit s0)))))"

subsection \<open>The run\<close>

datatype alert_result =
    Exit_1
  | No_active_chats
  | No_devices
  | Summary alert_vars nat

definition start_alert_vars :: alert_vars where
  "start_alert_vars = \<lparr> devicesChecked = 0, devicesOverLimit = 0, alertsSent = 0, requests = [] \<rparr>"

text \<open>
  testEnergyAlerts, after the two checks of the process environment: the summary it
  prints (the counters and the number of active chats), or how it ends without one.
\<close>

definition testEnergyAlerts :: "alert_env \<Rightarrow> rtdb \<Rightarrow> alert_result" where
  "testEnergyAlerts e db =
     (case get_active_chats e db of
        Inl x \<Rightarrow> Exit_1
      | Inr None \<Rightarrow> No_active_chats
      | Inr (Some activeChats) \<Rightarrow>
          (let chatIds = map (parseInt10 e) (Object_keys activeChats)
           in (case get_devices e db of
                 Inl x \<Rightarrow> Exit_1
               | Inr None \<Rightarrow> No_devices
               | Inr (Some ds) \<Rightarrow>
                   Summary (fold (check_device e db chatIds) ds start_alert_vars)
                           (length chatIds))))"

section \<open>Notification registry\<close>

text \<open>\<^verbatim>\<open>String(i)\<close> for an integer, as a template literal prints a chat id.\<close>

definition show_int :: "int \<Rightarrow> string" where
  "show_int i = (if i < 0 then ''-'' @ decimal (nat (- i)) else decimal (nat i))"

text \<open>
  Writing the property \<open>key\<close> of an object: the value of an existing key is replaced,
  a new key is added.
\<close>

fun set_prop :: "'v js_object \<Rightarrow> string \<Rightarrow> 'v \<Rightarrow> 'v js_object" where
  "set_prop [] key v = [(key, v)]"
| "set_prop ((k, w) # obj) key v =
     (if k = key then (k, v) # obj else (k, w) # set_prop obj key v)"

text \<open>\<^verbatim>\<open>s || null\<close> for an optional string.\<close>

definition or_null :: "string option \<Rightarrow> string option" where
  "or_null s = (case s of None \<Rightarrow> None | Some v \<Rightarrow> (if v = [] then None else Some v))"

text \<open>The entry that all three writers build, from the two timestamps.\<close>

definition new_entry :: "int \<Rightarrow> string option \<Rightarrow> string option \<Rightarrow> int \<Rightarrow> int \<Rightarrow> chat_entry" where
  "new_entry chat uname fname active added =
     \<lparr> chatId = chat, chat_username = or_null uname, firstName = or_null fname,
       lastActive = active, addedAt = added \<rparr>"

text \<open>
  saveActiveChatId of the Firestore module (\<^verbatim>\<open>lib/firebase/telegram-chats.ts\<close>): the
  document \<^verbatim>\<open>telegram/active_chats\<close> before and after, \<open>None\<close> when it does not
  exist. \<open>failing\<close> names the calls that reject; the exception is logged and thrown
  again. \<open>now\<close> is \<^verbatim>\<open>Date.now()\<close>.
\<close>

definition saveActiveChatId ::
  "(string \<Rightarrow> bool) \<Rightarrow> int \<Rightarrow> telegram_doc option \<Rightarrow> int \<Rightarrow> string option \<Rightarrow> string option
     \<Rightarrow> exn option \<times> telegram_doc option" where
  "saveActiveChatId failing now chatDoc chat uname fname =
     (if failing ''getDoc'' then (Some Read_failed, chatDoc)
      else
        (case chatDoc of
           None \<Rightarrow>
             (if failing ''setDoc'' then (Some Write_failed, chatDoc)
              else (None, Some \<lparr> chats = [(show_int chat, new_entry chat uname fname now now)],
                                 last_update_id = 0 \<rparr>))
         | Some d \<Rightarrow>
             (if failing ''updateDoc'' then (Some Write_failed, chatDoc)
              else
                (let added =
                       (case get_prop (chats d) (show_int chat) of
                          None \<Rightarrow> now
                        | Some old \<Rightarrow> (if addedAt old \<noteq> 0 then addedAt old else now))
                 in (None, Some (d\<lparr>chats := set_prop (chats d) (show_int chat)
                                              (new_entry chat uname fname now added)\<rparr>))))))"

text \<open>
  saveActiveChatId of the Realtime Database module (the second module of the same
  file): the node \<^verbatim>\<open>telegram/active_chats\<close> before and after. The discovery script
  writes the same entry to the same path (\<^verbatim>\<open>setFirebaseData\<close>, with
  \<^verbatim>\<open>lastActive: now, addedAt: now\<close>).
\<close>

definition saveActiveChatId_rtdb ::
  "(string \<Rightarrow> bool) \<Rightarrow> int \<Rightarrow> chat_entry js_object option \<Rightarrow> int \<Rightarrow> string option
     \<Rightarrow> string option \<Rightarrow> exn option \<times> chat_entry js_object option" where
  "saveActiveChatId_rtdb failing now active_chats chat uname fname =
     (if failing ''set'' then (Some Write_failed, active_chats)
      else (None, Some (set_prop (val_or_empty active_chats) (show_int chat)
                          (new_entry chat uname fname now now))))"

section \<open>What one run of migrateDevices writes\<close>

text \<open>
  The device documents that a run in environment \<open>e\<close> writes for the source devices
  \<open>ds\<close>, in the order of the writes; a later write to the same key overwrites.
\<close>

definition device_writes :: "env \<Rightarrow> rtdb_device js_object \<Rightarrow> (string \<times> item_doc) list" where
  "device_writes e ds =
     map (\<lambda>(deviceId, device). (deviceId, device_doc (server_time e deviceId) device))
         (filter (\<lambda>(deviceId, device). \<not> fails e (Set_doc ''item-data'' deviceId)) ds)"

section \<open>Sample data\<close>

text \<open>An environment in which no call fails, and one whose server clock is later.\<close>

definition no_failures :: env where
  "no_failures = \<lparr> fails = (\<lambda>op. False), server_time = (\<lambda>id. 1000) \<rparr>"

definition no_failures_later :: env where
  "no_failures_later = \<lparr> fails = (\<lambda>op. False), server_time = (\<lambda>id. 2000) \<rparr>"

definition validator_read_fails :: env where
  "validator_read_fails =
     \<lparr> fails = (\<lambda>op. op = Validate_read ''item-data''), server_time = (\<lambda>id. 1000) \<rparr>"

definition user_write_fails :: env where
  "user_write_fails =
     \<lparr> fails = (\<lambda>op. op = Set_doc ''user-data'' ''u2''), server_time = (\<lambda>id. 1000) \<rparr>"

definition lamp_write_fails :: env where
  "lamp_write_fails =
     \<lparr> fails = (\<lambda>op. op = Set_doc ''item-data'' ''lamp''), server_time = (\<lambda>id. 1000) \<rparr>"

definition lamp_write_fails_later :: env where
  "lamp_write_fails_later =
     \<lparr> fails = (\<lambda>op. op = Set_doc ''item-data'' ''lamp''), server_time = (\<lambda>id. 2000) \<rparr>"

definition empty_firestore :: firestore where
  "empty_firestore =
     \<lparr> user_data = Map.empty, item_data = Map.empty, daily = (\<lambda>id. Map.empty),
       telegram_active_chats = None, commits = [] \<rparr>"

text \<open>
  Two users and two devices. The device \<open>plug\<close> carries its own \<open>last_updated\<close>, the
  device \<open>lamp\<close> has none. One of the three readings of \<open>plug\<close> is an empty object.
\<close>

definition plug :: rtdb_device where
  "plug = \<lparr> name = ''Plug'', isOn = Some False, energyLimit = Some 1000,
            last_updated = Some 1700000000000,
            user_ids = Some [(''u1'', True), (''u2'', True), ('''', True)] \<rparr>"

definition lamp :: rtdb_device where
  "lamp = \<lparr> name = ''Lamp'', isOn = None, energyLimit = None,
            last_updated = None, user_ids = None \<rparr>"

definition plug_readings :: "rtdb_reading js_object" where
  "plug_readings =
     [(''1700000000000'', Some [(''energy'', 12), (''power'', 3)]),
      (''1700086400000'', Some []),
      (''1700172800000'', Some [(''energy'', 15)])]"

definition sample_rtdb :: rtdb where
  "sample_rtdb =
     \<lparr> rtdb_users = Some
         [(''u1'', \<lparr> email = ''a@x.org'', username = ''a'', devices = Some [(''plug'', ''Heater'')] \<rparr>),
          (''u2'', \<lparr> email = ''b@x.org'', username = ''b'', devices = None \<rparr>)],
       rtdb_devices = Some [(''plug'', plug), (''lamp'', lamp)],
       rtdb_readings_daily = Some [(''plug'', plug_readings)],
       rtdb_active_chats = None,
       rtdb_last_update_id = None \<rparr>"

text \<open>
  One device with 1001 readings, none of them empty, keyed by the timestamps
  \<open>0, 1, \<dots>, 1000\<close>.
\<close>

definition readings_1001 :: "rtdb_reading js_object" where
  "readings_1001 = map (\<lambda>i. (decimal i, Some [(''energy'', 1)])) [0..<1001]"

definition rtdb_1001 :: rtdb where
  "rtdb_1001 =
     \<lparr> rtdb_users = None, rtdb_devices = Some [(''plug'', plug)],
       rtdb_readings_daily = Some [(''plug'', readings_1001)],
       rtdb_active_chats = None, rtdb_last_update_id = None \<rparr>"

text \<open>
  Data for the alert evaluator: the device \<open>plug\<close> (limit 1000) has a latest reading of
  1250.50 and an older one of 900; \<open>lamp\<close> has no limit; one chat is registered.
\<close>

definition alert_readings :: "rtdb_reading js_object" where
  "alert_readings =
     [(''1700000000000'', Some [(''energy'', 900)]),
      (''1700172800000'', Some [(''energy'', 2501 / 2), (''power'', 3)]),
      (''1700086400000'', Some [(''energy'', 2000)])]"

definition alert_rtdb :: rtdb where
  "alert_rtdb =
     \<lparr> rtdb_users = Some
         [(''u1'', \<lparr> email = ''a@x.org'', username = ''a'', devices = Some [(''plug'', ''Heater'')] \<rparr>)],
       rtdb_devices = Some [(''plug'', plug), (''lamp'', lamp)],
       rtdb_readings_daily = Some [(''plug'', alert_readings), (''lamp'', alert_readings)],
       rtdb_active_chats = Some
         [(''42'', \<lparr> chatId = 42, chat_username = None, firstName = Some ''Ann'',
                    lastActive = 1700000000000, addedAt = 1690000000000 \<rparr>)],
       rtdb_last_update_id = None \<rparr>"

definition under_limit_rtdb :: rtdb where
  "under_limit_rtdb =
     alert_rtdb \<lparr> rtdb_readings_daily :=
       Some [(''plug'', [(''1700172800000'', Some [(''energy'', 99999 / 100)])])] \<rparr>"

text \<open>
  An environment where no read fails, the keys are decimal numerals and Telegram accepts
  every message. No number of the sample data reaches \<open>10\<^sup>2\<^sup>1\<close>, so that \<^verbatim>\<open>toString\<close> is
  not called on them; it is given its value at \<open>10\<^sup>2\<^sup>1\<close>.
\<close>

definition alert_ok :: alert_env where
  "alert_ok =
     \<lparr> rest_fails = (\<lambda>path. False), parseInt = parse_digits, parseInt10 = parse_digits,
       number_toString = (\<lambda>x. ''1e+21''),
       telegram = (\<lambda>i chat message. Json_ok True),
       clock = (\<lambda>i. ''Nov 2, 2026, 3:34 AM'') \<rparr>"

definition alert_user_read_fails :: alert_env where
  "alert_user_read_fails = alert_ok \<lparr> rest_fails := (\<lambda>path. path = ''/users/u1'') \<rparr>"

text \<open>A registry with the chat 42, added at 1690000000000 and last active then.\<close>

definition registered_42 :: "chat_entry js_object" where
  "registered_42 =
     [(''42'', \<lparr> chatId = 42, chat_username = None, firstName = Some ''Ann'',
                lastActive = 1690000000000, addedAt = 1690000000000 \<rparr>)]"

definition no_failing :: "string \<Rightarrow> bool" where
  "no_failing call = False"

text \<open>
  One device with one empty reading, keyed \<open>0\<close>, and 501 non-empty readings after it,
  keyed \<open>1, \<dots>, 501\<close>.
\<close>

definition readings_501_and_empty :: "rtdb_reading js_object" where
  "readings_501_and_empty =
     (decimal 0, Some []) # map (\<lambda>i. (decimal i, Some [(''energy'', 1)])) [1..<502]"

definition rtdb_501_and_empty :: rtdb where
  "rtdb_501_and_empty =
     \<lparr> rtdb_users = None, rtdb_devices = Some [(''plug'', plug)],
       rtdb_readings_daily = Some [(''plug'', readings_501_and_empty)],
       rtdb_active_chats = None, rtdb_last_update_id = None \<rparr>"

definition plug_only_rtdb :: rtdb where
  "plug_only_rtdb = sample_rtdb \<lparr> rtdb_devices := Some [(''plug'', plug)] \<rparr>"

definition lamp_only_rtdb :: rtdb where
  "lamp_only_rtdb = sample_rtdb \<lparr> rtdb_devices := Some [(''lamp'', lamp)] \<rparr>"

section \<open>Set-to-sequence conversion of user_ids\<close>

lemma userIdsArray_Some:
  "user_ids device = Some m \<Longrightarrow> userIdsArray device = filter (\<lambda>id. id \<noteq> []) (map fst m)"
  by (simp add: userIdsArray_def Object_keys_def)

text \<open>
  Claim C6. The \<open>user_ids\<close> sequence written for a device whose source \<open>user_ids\<close> is
  the object \<open>m\<close> holds exactly the non-empty keys of \<open>m\<close>, each once, and never the
  empty string; any reordering of the entries of \<open>m\<close> gives the same sequence up to
  order.
\<close>

theorem user_ids_set_to_sequence:
  assumes "user_ids device = Some m" and "distinct (Object_keys m)"
  shows "set (fs_user_ids (device_doc now device)) = set (Object_keys m) - {''''}
       \<and> distinct (fs_user_ids (device_doc now device))
       \<and> '''' \<notin> set (fs_user_ids (device_doc now device))
       \<and> (\<forall>m'. mset m' = mset m \<longrightarrow>
             mset (fs_user_ids (device_doc now (device\<lparr>user_ids := Some m'\<rparr>)))
               = mset (fs_user_ids (device_doc now device)))"
proof -
  have ids: "fs_user_ids (device_doc now device) = filter (\<lambda>id. id \<noteq> []) (map fst m)"
    using assms(1) by (simp add: device_doc_def userIdsArray_Some)
  have a: "set (fs_user_ids (device_doc now device)) = set (Object_keys m) - {''''}"
    unfolding ids Object_keys_def by auto
  have b: "distinct (fs_user_ids (device_doc now device))"
    unfolding ids using assms(2) by (simp add: Object_keys_def)
  have c: "'''' \<notin> set (fs_user_ids (device_doc now device))"
    unfolding ids by simp
  have d: "mset (fs_user_ids (device_doc now (device\<lparr>user_ids := Some m'\<rparr>)))
             = mset (fs_user_ids (device_doc now device))" if "mset m' = mset m" for m'
  proof -
    have "mset (map fst m') = mset (map fst m)"
      using that by (metis mset_map)
    then have "mset (filter (\<lambda>id. id \<noteq> []) (map fst m'))
                 = mset (filter (\<lambda>id. id \<noteq> []) (map fst m))"
      by (metis mset_filter)
    then show ?thesis
      unfolding ids by (simp add: device_doc_def userIdsArray_def Object_keys_def)
  qed
  from a b c d show ?thesis by blast
qed

theorem user_ids_set_to_sequence_witness:
  "mset (fs_user_ids (device_doc 0
      \<lparr> name = ''plug'', isOn = None, energyLimit = None, last_updated = None,
        user_ids = Some [(''u1'', True), (''u2'', True), ('''', True)] \<rparr>))
     = {#''u1'', ''u2''#}
   \<and> mset (fs_user_ids (device_doc 0
      \<lparr> name = ''plug'', isOn = None, energyLimit = None, last_updated = None,
        user_ids = Some [('''', True), (''u2'', True), (''u1'', True)] \<rparr>))
     = {#''u1'', ''u2''#}
   \<and> distinct (fs_user_ids (device_doc 0
      \<lparr> name = ''plug'', isOn = None, energyLimit = None, last_updated = None,
        user_ids = Some [(''u1'', True), (''u2'', True), ('''', True)] \<rparr>))"
  using user_ids_set_to_sequence [of
      "\<lparr> name = ''plug'', isOn = None, energyLimit = None, last_updated = None,
         user_ids = Some [(''u1'', True), (''u2'', True), ('''', True)] \<rparr>"
      "[(''u1'', True), (''u2'', True), ('''', True)]" 0]
  by (simp add: Object_keys_def device_doc_def userIdsArray_def)

section \<open>sendTelegramMessage returns a boolean\<close>

text \<open>
  Claim C9. sendTelegramMessage always returns a boolean and never raises: the result is
  false when the bot token is unset, when the reply reports not-ok, and when the fetch or
  the decoding of the reply throws; it is true only when the token is set and the reply
  reports ok.
\<close>

theorem sendTelegramMessage_total:
  "\<exists>b. sendTelegramMessage token transport c txt = Inr b
     \<and> (token = None \<or> token = Some [] \<longrightarrow> \<not> b)
     \<and> (transport c txt = Json_ok False \<longrightarrow> \<not> b)
     \<and> (transport c txt \<in> {Fetch_throws, Json_throws, Json_null} \<longrightarrow> \<not> b)
     \<and> (b \<longrightarrow> token \<noteq> None \<and> token \<noteq> Some [] \<and> transport c txt = Json_ok True)"
  by (cases "transport c txt")
     (auto simp: sendTelegramMessage_def sendTelegramMessage_try_def)

theorem sendTelegramMessage_total_witness:
  "sendTelegramMessage (Some ''123:abc'') (\<lambda>c t. Json_ok True) 42 ''hello'' = Inr True
   \<and> sendTelegramMessage None (\<lambda>c t. Json_ok True) 42 ''hello'' = Inr False
   \<and> sendTelegramMessage (Some ''123:abc'') (\<lambda>c t. Json_ok False) 42 ''hello'' = Inr False
   \<and> sendTelegramMessage (Some ''123:abc'') (\<lambda>c t. Fetch_throws) 42 ''hello'' = Inr False"
  using sendTelegramMessage_total [of "Some ''123:abc''" "\<lambda>c t. Json_ok True" 42 "''hello''"]
        sendTelegramMessage_total [of None "\<lambda>c t. Json_ok True" 42 "''hello''"]
        sendTelegramMessage_total [of "Some ''123:abc''" "\<lambda>c t. Json_ok False" 42 "''hello''"]
        sendTelegramMessage_total [of "Some ''123:abc''" "\<lambda>c t. Fetch_throws" 42 "''hello''"]
  by (simp add: sendTelegramMessage_def sendTelegramMessage_try_def)

section \<open>Validator\<close>

lemmas sample_defs =
  no_failures_def no_failures_later_def validator_read_fails_def user_write_fails_def
  lamp_write_fails_def lamp_write_fails_later_def
  sample_rtdb_def plug_only_rtdb_def lamp_only_rtdb_def empty_firestore_def plug_def lamp_def
  plug_readings_def

lemmas migration_defs =
  validateMigration_def sample_check_def migrate_def migrate_try_def migrateUsers_def
  migrateDevices_def migrateDailyReadings_def migrateTelegramData_def val_or_empty_def
  Object_keys_def Let_def get_prop_def migrate_device_readings_def new_batch_def start_vars_def
  empty_reading_def batch_set_def commit_full_def commit_remaining_def batch_commit_def
  apply_write_def device_doc_def user_doc_of_def daily_doc_of_def userIdsArray_def or_zero_def






section \<open>Orchestrator\<close>

text \<open>
  Claim C3. When the four migrators return and the validator reports a verdict, migrate
  exits with 0 for the verdict true and with 1 for the verdict false; when the read of a
  migrator, a write to an already committed batch, or a read of the validator raises,
  migrate exits with 1; no other exit code occurs.
\<close>

theorem migrate_exit_code:
  "(migrateUsers e src fs = (Inr usersResult, fsa)
      \<and> migrateDevices e src fsa = (Inr devicesResult, fsb)
      \<and> migrateDailyReadings e src fsb = (Inr readingsResult, fsc)
      \<and> migrateTelegramData e src fsc = (telegramResult, fsd)
      \<and> validateMigration e src fsd = Inr (lg, isValid)
      \<longrightarrow> migrate e src fs = ((if isValid then 0 else 1), fsd))
   \<and> (migrateUsers e src fs = (Inl x, fsa)
        \<or> migrateUsers e src fs = (Inr usersResult, fsa)
            \<and> migrateDevices e src fsa = (Inl x, fsb)
        \<or> migrateUsers e src fs = (Inr usersResult, fsa)
            \<and> migrateDevices e src fsa = (Inr devicesResult, fsb)
            \<and> migrateDailyReadings e src fsb = (Inl x, fsc)
        \<or> migrateUsers e src fs = (Inr usersResult, fsa)
            \<and> migrateDevices e src fsa = (Inr devicesResult, fsb)
            \<and> migrateDailyReadings e src fsb = (Inr readingsResult, fsc)
            \<and> migrateTelegramData e src fsc = (telegramResult, fsd)
            \<and> validateMigration e src fsd = Inl x
      \<longrightarrow> fst (migrate e src fs) = 1)
   \<and> fst (migrate e src fs) \<in> {0, 1}"
proof (intro conjI impI)
  assume "migrateUsers e src fs = (Inr usersResult, fsa)
      \<and> migrateDevices e src fsa = (Inr devicesResult, fsb)
      \<and> migrateDailyReadings e src fsb = (Inr readingsResult, fsc)
      \<and> migrateTelegramData e src fsc = (telegramResult, fsd)
      \<and> validateMigration e src fsd = Inr (lg, isValid)"
  then show "migrate e src fs = ((if isValid then 0 else 1), fsd)"
    by (simp add: migrate_def migrate_try_def)
next
  assume "migrateUsers e src fs = (Inl x, fsa)
        \<or> migrateUsers e src fs = (Inr usersResult, fsa)
            \<and> migrateDevices e src fsa = (Inl x, fsb)
        \<or> migrateUsers e src fs = (Inr usersResult, fsa)
            \<and> migrateDevices e src fsa = (Inr devicesResult, fsb)
            \<and> migrateDailyReadings e src fsb = (Inl x, fsc)
        \<or> migrateUsers e src fs = (Inr usersResult, fsa)
            \<and> migrateDevices e src fsa = (Inr devicesResult, fsb)
            \<and> migrateDailyReadings e src fsb = (Inr readingsResult, fsc)
            \<and> migrateTelegramData e src fsc = (telegramResult, fsd)
            \<and> validateMigration e src fsd = Inl x"
  then show "fst (migrate e src fs) = 1"
    by (elim disjE conjE) (simp_all add: migrate_def migrate_try_def)
next
  show "fst (migrate e src fs) \<in> {0, 1}"
    by (simp add: migrate_def migrate_try_def split: prod.splits sum.splits)
qed

theorem migrate_exit_code_witness:
  "fst (migrate no_failures sample_rtdb empty_firestore) = 0
   \<and> fst (migrate user_write_fails sample_rtdb empty_firestore) = 1
   \<and> fst (migrate validator_read_fails sample_rtdb empty_firestore) = 1"
proof (intro conjI)
  define fsa where "fsa = snd (migrateUsers no_failures sample_rtdb empty_firestore)"
  define fsb where "fsb = snd (migrateDevices no_failures sample_rtdb fsa)"
  define fsc where "fsc = snd (migrateDailyReadings no_failures sample_rtdb fsb)"
  define fsd where "fsd = snd (migrateTelegramData no_failures sample_rtdb fsc)"
  have "migrateUsers no_failures sample_rtdb empty_firestore
          = (Inr \<lparr>errorCount = 0, migratedCount = 2\<rparr>, fsa)
      \<and> migrateDevices no_failures sample_rtdb fsa = (Inr \<lparr>errorCount = 0, migratedCount = 2\<rparr>, fsb)
      \<and> migrateDailyReadings no_failures sample_rtdb fsb
          = (Inr \<lparr>errorCount = 0, res_totalReadings = 2, res_totalDevices = 1\<rparr>, fsc)
      \<and> migrateTelegramData no_failures sample_rtdb fsc = (\<lparr>chatCount = 0, error = None\<rparr>, fsd)
      \<and> validateMigration no_failures sample_rtdb fsd
          = Inr ([Users_line 2 2 True, Devices_line 2 2 True,
                  Sample_line ''plug'' 3 2 False, Validation_passed], True)"
    unfolding fsa_def fsb_def fsc_def fsd_def
    by (simp add: migration_defs sample_defs)
  with migrate_exit_code [where e = no_failures and src = sample_rtdb and fs = empty_firestore
          and fsa = fsa and fsb = fsb and fsc = fsc and fsd = fsd and isValid = True]
  have "migrate no_failures sample_rtdb empty_firestore = ((if True then 0 else 1), fsd)"
    by blast
  then show "fst (migrate no_failures sample_rtdb empty_firestore) = 0" by simp
next
  define fsa where "fsa = snd (migrateUsers user_write_fails sample_rtdb empty_firestore)"
  define fsb where "fsb = snd (migrateDevices user_write_fails sample_rtdb fsa)"
  define fsc where "fsc = snd (migrateDailyReadings user_write_fails sample_rtdb fsb)"
  define fsd where "fsd = snd (migrateTelegramData user_write_fails sample_rtdb fsc)"
  have "migrateUsers user_write_fails sample_rtdb empty_firestore
          = (Inr \<lparr>errorCount = 1, migratedCount = 1\<rparr>, fsa)
      \<and> migrateDevices user_write_fails sample_rtdb fsa = (Inr \<lparr>errorCount = 0, migratedCount = 2\<rparr>, fsb)
      \<and> migrateDailyReadings user_write_fails sample_rtdb fsb
          = (Inr \<lparr>errorCount = 0, res_totalReadings = 2, res_totalDevices = 1\<rparr>, fsc)
      \<and> migrateTelegramData user_write_fails sample_rtdb fsc = (\<lparr>chatCount = 0, error = None\<rparr>, fsd)
      \<and> validateMigration user_write_fails sample_rtdb fsd
          = Inr ([Users_line 2 1 False, Devices_line 2 2 True,
                  Sample_line ''plug'' 3 2 False, Validation_failed], False)"
    unfolding fsa_def fsb_def fsc_def fsd_def
    by (simp add: migration_defs sample_defs)
  with migrate_exit_code [where e = user_write_fails and src = sample_rtdb and fs = empty_firestore
          and fsa = fsa and fsb = fsb and fsc = fsc and fsd = fsd and isValid = False]
  have "migrate user_write_fails sample_rtdb empty_firestore = ((if False then 0 else 1), fsd)"
    by blast
  then show "fst (migrate user_write_fails sample_rtdb empty_firestore) = 1" by simp
next
  define fsa where "fsa = snd (migrateUsers validator_read_fails sample_rtdb empty_firestore)"
  define fsb where "fsb = snd (migrateDevices validator_read_fails sample_rtdb fsa)"
  define fsc where "fsc = snd (migrateDailyReadings validator_read_fails sample_rtdb fsb)"
  define fsd where "fsd = snd (migrateTelegramData validator_read_fails sample_rtdb fsc)"
  have "migrateUsers validator_read_fails sample_rtdb empty_firestore
          = (Inr \<lparr>errorCount = 0, migratedCount = 2\<rparr>, fsa)
      \<and> migrateDevices validator_read_fails sample_rtdb fsa = (Inr \<lparr>errorCount = 0, migratedCount = 2\<rparr>, fsb)
      \<and> migrateDailyReadings validator_read_fails sample_rtdb fsb
          = (Inr \<lparr>errorCount = 0, res_totalReadings = 2, res_totalDevices = 1\<rparr>, fsc)
      \<and> migrateTelegramData validator_read_fails sample_rtdb fsc = (\<lparr>chatCount = 0, error = None\<rparr>, fsd)
      \<and> validateMigration validator_read_fails sample_rtdb fsd = Inl Read_failed"
    unfolding fsa_def fsb_def fsc_def fsd_def
    by (simp add: migration_defs sample_defs)
  with migrate_exit_code [where e = validator_read_fails and src = sample_rtdb
          and fs = empty_firestore
          and fsa = fsa and fsb = fsb and fsc = fsc and fsd = fsd and x = Read_failed]
  show "fst (migrate validator_read_fails sample_rtdb empty_firestore) = 1"
    by blast
qed

section \<open>Running the devices migrator twice\<close>

lemma map_upd_add: "m(k \<mapsto> v) ++ M = m ++ ([k \<mapsto> v] ++ M)"
  by (rule ext) (simp add: map_add_def split: option.splits)

lemma map_add_twice: "m ++ u ++ u = m ++ u"
  by (rule ext) (simp add: map_add_def split: option.splits)

lemma device_writes_Nil: "device_writes e [] = []"
  by (simp add: device_writes_def)

lemma device_writes_Cons:
  "device_writes e ((k, d) # ds) =
     (if fails e (Set_doc ''item-data'' k) then device_writes e ds
      else (k, device_doc (server_time e k) d) # device_writes e ds)"
  by (simp add: device_writes_def)

lemma migrateDevices_loop_store:
  "snd (migrateDevices_loop e ds (t, fs))
     = fs\<lparr>item_data := item_data fs ++ map_of (rev (device_writes e ds))\<rparr>"
proof (induction ds arbitrary: t fs)
  case Nil
  then show ?case by (simp add: device_writes_Nil)
next
  case (Cons p ds)
  obtain k d where p: "p = (k, d)" by (cases p)
  show ?case
  proof (cases "fails e (Set_doc ''item-data'' k)")
    case True
    then show ?thesis using Cons.IH by (simp add: p device_writes_Cons)
  next
    case False
    let ?v = "device_doc (server_time e k) d"
    have "map_of (rev (device_writes e (p # ds))) = [k \<mapsto> ?v] ++ map_of (rev (device_writes e ds))"
      using False by (simp add: p device_writes_Cons)
    then have "item_data fs ++ map_of (rev (device_writes e (p # ds)))
                 = (item_data fs)(k \<mapsto> ?v) ++ map_of (rev (device_writes e ds))"
      using map_upd_add [of "item_data fs" k ?v "map_of (rev (device_writes e ds))"]
      by (simp only:)
    moreover have "snd (migrateDevices_loop e (p # ds) (t, fs))
        = fs\<lparr>item_data := (item_data fs)(k \<mapsto> ?v) ++ map_of (rev (device_writes e ds))\<rparr>"
      using False by (simp add: p Cons.IH fun_upd_def)
    ultimately show ?thesis by simp
  qed
qed

lemma migrateDevices_loop_tally:
  "fst (migrateDevices_loop e ds (t, fs))
     = t\<lparr>errorCount := errorCount t
             + length (filter (\<lambda>(k, d). fails e (Set_doc ''item-data'' k)) ds),
          migratedCount := migratedCount t
             + length (filter (\<lambda>(k, d). \<not> fails e (Set_doc ''item-data'' k)) ds)\<rparr>"
proof (induction ds arbitrary: t fs)
  case Nil
  then show ?case by simp
next
  case (Cons p ds)
  obtain k d where p: "p = (k, d)" by (cases p)
  show ?case using Cons.IH by (simp add: p)
qed

lemma device_doc_clock:
  "last_updated d \<noteq> None \<Longrightarrow> last_updated d \<noteq> Some 0 \<Longrightarrow> device_doc now d = device_doc now' d"
  by (auto simp: device_doc_def split: option.splits)

lemma device_doc_server_time:
  "last_updated d = None \<or> last_updated d = Some 0 \<Longrightarrow>
     device_doc now d = (device_doc now' d)\<lparr>fs_last_updated := Server_timestamp now\<rparr>"
  by (auto simp: device_doc_def)

lemma device_doc_clock_differs:
  "last_updated d = None \<or> last_updated d = Some 0 \<Longrightarrow> now \<noteq> now' \<Longrightarrow>
     device_doc now d \<noteq> device_doc now' d"
  by (auto simp: device_doc_def)

lemma device_writes_key:
  assumes "\<forall>d. (k, d) \<in> set ds \<longrightarrow> last_updated d \<noteq> None \<and> last_updated d \<noteq> Some 0"
    and "\<forall>k' \<in> set (Object_keys ds).
           fails e2 (Set_doc ''item-data'' k') = fails e1 (Set_doc ''item-data'' k')"
  shows "map_of (rev (device_writes e2 ds)) k = map_of (rev (device_writes e1 ds)) k"
  using assms
proof (induction ds)
  case Nil
  then show ?case by (simp add: device_writes_Nil)
next
  case (Cons p ds)
  obtain k' d where p: "p = (k', d)" by (cases p)
  have ih: "map_of (rev (device_writes e2 ds)) k = map_of (rev (device_writes e1 ds)) k"
    using Cons by (simp add: Object_keys_def)
  have f: "fails e2 (Set_doc ''item-data'' k') = fails e1 (Set_doc ''item-data'' k')"
    using Cons.prems(2) by (simp add: p Object_keys_def)
  show ?case
  proof (cases "k' = k")
    case True
    with Cons.prems(1) have "last_updated d \<noteq> None" "last_updated d \<noteq> Some 0"
      by (auto simp: p)
    then have "device_doc (server_time e2 k') d = device_doc (server_time e1 k') d"
      by (rule device_doc_clock)
    then show ?thesis using ih f by (simp add: p device_writes_Cons map_add_def)
  next
    case False
    then show ?thesis using ih f
      by (auto simp: p device_writes_Cons map_add_def split: option.splits)
  qed
qed

lemma device_writes_tally:
  assumes "\<forall>k' \<in> set (Object_keys ds).
           fails e2 (Set_doc ''item-data'' k') = fails e1 (Set_doc ''item-data'' k')"
  shows "fst (migrateDevices_loop e2 ds (t, fs')) = fst (migrateDevices_loop e1 ds (t, fs))"
proof -
  have "filter (\<lambda>(k, d). fails e2 (Set_doc ''item-data'' k)) ds
          = filter (\<lambda>(k, d). fails e1 (Set_doc ''item-data'' k)) ds"
    using assms by (intro filter_cong) (auto simp: Object_keys_def)
  moreover have "filter (\<lambda>(k, d). \<not> fails e2 (Set_doc ''item-data'' k)) ds
          = filter (\<lambda>(k, d). \<not> fails e1 (Set_doc ''item-data'' k)) ds"
    using assms by (intro filter_cong) (auto simp: Object_keys_def)
  ultimately show ?thesis unfolding migrateDevices_loop_tally by simp
qed

lemma device_writes_entry:
  assumes "distinct (Object_keys ds)" and "(k, d) \<in> set ds"
    and "\<not> fails e (Set_doc ''item-data'' k)"
  shows "map_of (rev (device_writes e ds)) k = Some (device_doc (server_time e k) d)"
proof -
  have m: "map fst (device_writes e ds)
             = map fst (filter (\<lambda>(deviceId, device). \<not> fails e (Set_doc ''item-data'' deviceId)) ds)"
    by (simp add: device_writes_def case_prod_unfold comp_def)
  have "distinct (map fst (device_writes e ds))"
    unfolding m using assms(1) by (simp add: Object_keys_def distinct_map_filter)
  then have dr: "distinct (map fst (rev (device_writes e ds)))"
    by (simp add: rev_map [symmetric])
  have "(k, device_doc (server_time e k) d) \<in> set (rev (device_writes e ds))"
    using assms(2,3) by (force simp: device_writes_def)
  with dr show ?thesis by (rule map_of_is_SomeI)
qed

text \<open>
  Claim C4, as amended. Let the read of the devices and the write of each source device
  have the same outcome in both runs. Then a second run of migrateDevices on the same
  source reports the same tally as the first, whatever the devices are. The destination
  record of every device that carries a non-zero \<open>last_updated\<close> is the same after
  both runs, also in a collection where other devices carry none; no other part of the
  destination changes, so the whole destination is the same when every device carries
  one. Each device whose write succeeds has, after a run, the record made from its
  source with the server clock of that run; for a device without \<open>last_updated\<close> that
  record has the server timestamp of the run as \<open>last_updated\<close> and is otherwise
  independent of the clock, so that the records of two runs at different server times
  differ.
\<close>

theorem migrateDevices_twice:
  assumes "fails e2 (Read_rtdb ''devices'') = fails e1 (Read_rtdb ''devices'')"
    and "\<forall>k \<in> set (Object_keys (val_or_empty (rtdb_devices src))).
           fails e2 (Set_doc ''item-data'' k) = fails e1 (Set_doc ''item-data'' k)"
  shows "fst (migrateDevices e2 src (snd (migrateDevices e1 src fs)))
           = fst (migrateDevices e1 src fs)
       \<and> (\<forall>k. (\<forall>d. (k, d) \<in> set (val_or_empty (rtdb_devices src))
                     \<longrightarrow> last_updated d \<noteq> None \<and> last_updated d \<noteq> Some 0)
              \<longrightarrow> item_data (snd (migrateDevices e2 src (snd (migrateDevices e1 src fs)))) k
                   = item_data (snd (migrateDevices e1 src fs)) k)
       \<and> snd (migrateDevices e2 src (snd (migrateDevices e1 src fs)))
           = (snd (migrateDevices e1 src fs))
               \<lparr>item_data := item_data (snd (migrateDevices e2 src (snd (migrateDevices e1 src fs))))\<rparr>
       \<and> ((\<forall>(k, d) \<in> set (val_or_empty (rtdb_devices src)).
               last_updated d \<noteq> None \<and> last_updated d \<noteq> Some 0)
            \<longrightarrow> snd (migrateDevices e2 src (snd (migrateDevices e1 src fs)))
                 = snd (migrateDevices e1 src fs))
       \<and> (distinct (Object_keys (val_or_empty (rtdb_devices src)))
            \<and> (k, d) \<in> set (val_or_empty (rtdb_devices src))
            \<and> \<not> fails e1 (Read_rtdb ''devices'') \<and> \<not> fails e1 (Set_doc ''item-data'' k)
            \<longrightarrow> item_data (snd (migrateDevices e1 src fs)) k
                   = Some (device_doc (server_time e1 k) d)
               \<and> item_data (snd (migrateDevices e2 src (snd (migrateDevices e1 src fs)))) k
                   = Some (device_doc (server_time e2 k) d))
       \<and> (last_updated d = None \<or> last_updated d = Some 0
            \<longrightarrow> device_doc now d = (device_doc now' d)\<lparr>fs_last_updated := Server_timestamp now\<rparr>
               \<and> (now \<noteq> now' \<longrightarrow> device_doc now d \<noteq> device_doc now' d))"
proof -
  let ?ds = "val_or_empty (rtdb_devices src)"
  let ?t0 = "\<lparr>errorCount = 0, migratedCount = 0\<rparr>"
  let ?fs1 = "snd (migrateDevices e1 src fs)"
  let ?fs2 = "snd (migrateDevices e2 src ?fs1)"
  let ?M1 = "map_of (rev (device_writes e1 ?ds))"
  let ?M2 = "map_of (rev (device_writes e2 ?ds))"
  have clock: "last_updated d = None \<or> last_updated d = Some 0
            \<longrightarrow> device_doc now d = (device_doc now' d)\<lparr>fs_last_updated := Server_timestamp now\<rparr>
               \<and> (now \<noteq> now' \<longrightarrow> device_doc now d \<noteq> device_doc now' d)"
    using device_doc_server_time [of d now now'] device_doc_clock_differs [of d now now']
    by blast
  show ?thesis
  proof (cases "fails e1 (Read_rtdb ''devices'')")
    case True
    then have "migrateDevices e1 src fs = (Inl Read_failed, fs)"
      and "migrateDevices e2 src fs = (Inl Read_failed, fs)"
      using assms(1) by (simp_all add: migrateDevices_def)
    then show ?thesis using True clock by auto
  next
    case False
    have r1: "migrateDevices e1 src fs'
              = (Inr (fst (migrateDevices_loop e1 ?ds (?t0, fs'))),
                 fs'\<lparr>item_data := item_data fs' ++ ?M1\<rparr>)" for fs'
      using False migrateDevices_loop_store [of e1 ?ds ?t0 fs']
      by (cases "migrateDevices_loop e1 ?ds (?t0, fs')") (simp add: migrateDevices_def)
    have r2: "migrateDevices e2 src fs'
              = (Inr (fst (migrateDevices_loop e2 ?ds (?t0, fs'))),
                 fs'\<lparr>item_data := item_data fs' ++ ?M2\<rparr>)" for fs'
      using False assms(1) migrateDevices_loop_store [of e2 ?ds ?t0 fs']
      by (cases "migrateDevices_loop e2 ?ds (?t0, fs')") (simp add: migrateDevices_def)
    have i1: "item_data ?fs1 = item_data fs ++ ?M1" by (simp add: r1)
    have i2: "item_data ?fs2 = item_data fs ++ ?M1 ++ ?M2" by (simp add: r1 r2)
    have tally: "fst (migrateDevices e2 src ?fs1) = fst (migrateDevices e1 src fs)"
      using device_writes_tally [OF assms(2), of ?t0 ?fs1 fs] by (simp add: r1 r2)
    have key: "item_data ?fs2 k = item_data ?fs1 k"
      if "\<forall>d. (k, d) \<in> set ?ds \<longrightarrow> last_updated d \<noteq> None \<and> last_updated d \<noteq> Some 0" for k
    proof -
      have "?M2 k = ?M1 k" using that assms(2) by (rule device_writes_key)
      then show ?thesis by (simp add: i1 i2 map_add_def split: option.splits)
    qed
    have others: "?fs2 = ?fs1\<lparr>item_data := item_data ?fs2\<rparr>"
      by (simp add: r1 r2)
    have whole: "?fs2 = ?fs1"
      if a: "\<forall>(k, d) \<in> set ?ds. last_updated d \<noteq> None \<and> last_updated d \<noteq> Some 0"
    proof -
      have "item_data ?fs2 k = item_data ?fs1 k" for k
        using a by (intro key) auto
      then have "item_data ?fs2 = item_data ?fs1" by (rule ext)
      with others show ?thesis by simp
    qed
    have entry: "item_data ?fs1 k = Some (device_doc (server_time e1 k) d)
               \<and> item_data ?fs2 k = Some (device_doc (server_time e2 k) d)"
      if a: "distinct (Object_keys ?ds) \<and> (k, d) \<in> set ?ds
            \<and> \<not> fails e1 (Read_rtdb ''devices'') \<and> \<not> fails e1 (Set_doc ''item-data'' k)"
    proof -
      from a have "k \<in> set (Object_keys ?ds)" by (force simp: Object_keys_def)
      with assms(2) a have f2: "\<not> fails e2 (Set_doc ''item-data'' k)" by simp
      from a have "?M1 k = Some (device_doc (server_time e1 k) d)"
        by (intro device_writes_entry) simp_all
      moreover from a f2 have "?M2 k = Some (device_doc (server_time e2 k) d)"
        by (intro device_writes_entry) simp_all
      ultimately show ?thesis by (simp add: i1 i2 map_add_def)
    qed
    from tally key others whole entry clock show ?thesis by blast
  qed
qed


text \<open>
  The claim as stated fails for the device \<open>lamp\<close>, which has no \<open>last_updated\<close>:
  the first run stores the server time 1000, the second run the server time 2000.
\<close>

theorem migrateDevices_twice_counterexample:
  "item_data (snd (migrateDevices no_failures lamp_only_rtdb empty_firestore)) ''lamp''
     = Some \<lparr> fs_name = ''Lamp'', fs_isOn = True, fs_energyLimit = 0,
              fs_last_updated = Server_timestamp 1000, fs_user_ids = [] \<rparr>
   \<and> item_data (snd (migrateDevices no_failures_later lamp_only_rtdb
                      (snd (migrateDevices no_failures lamp_only_rtdb empty_firestore)))) ''lamp''
     = Some \<lparr> fs_name = ''Lamp'', fs_isOn = True, fs_energyLimit = 0,
              fs_last_updated = Server_timestamp 2000, fs_user_ids = [] \<rparr>
   \<and> snd (migrateDevices no_failures_later lamp_only_rtdb
            (snd (migrateDevices no_failures lamp_only_rtdb empty_firestore)))
     \<noteq> snd (migrateDevices no_failures lamp_only_rtdb empty_firestore)"
proof -
  have a: "item_data (snd (migrateDevices no_failures lamp_only_rtdb empty_firestore)) ''lamp''
     = Some \<lparr> fs_name = ''Lamp'', fs_isOn = True, fs_energyLimit = 0,
              fs_last_updated = Server_timestamp 1000, fs_user_ids = [] \<rparr>"
    by (simp add: migration_defs sample_defs)
  have b: "item_data (snd (migrateDevices no_failures_later lamp_only_rtdb
                      (snd (migrateDevices no_failures lamp_only_rtdb empty_firestore)))) ''lamp''
     = Some \<lparr> fs_name = ''Lamp'', fs_isOn = True, fs_energyLimit = 0,
              fs_last_updated = Server_timestamp 2000, fs_user_ids = [] \<rparr>"
    by (simp add: migration_defs sample_defs)
  from a b show ?thesis by auto
qed

theorem migrateDevices_twice_witness:
  "fst (migrateDevices no_failures sample_rtdb empty_firestore)
     = Inr \<lparr>errorCount = 0, migratedCount = 2\<rparr>
   \<and> fst (migrateDevices no_failures_later sample_rtdb
            (snd (migrateDevices no_failures sample_rtdb empty_firestore)))
     = Inr \<lparr>errorCount = 0, migratedCount = 2\<rparr>
   \<and> item_data (snd (migrateDevices no_failures sample_rtdb empty_firestore)) ''plug''
     = Some \<lparr> fs_name = ''Plug'', fs_isOn = False, fs_energyLimit = 1000,
              fs_last_updated = Source_time 1700000000000, fs_user_ids = [''u1'', ''u2''] \<rparr>
   \<and> item_data (snd (migrateDevices no_failures_later sample_rtdb
            (snd (migrateDevices no_failures sample_rtdb empty_firestore)))) ''plug''
     = Some \<lparr> fs_name = ''Plug'', fs_isOn = False, fs_energyLimit = 1000,
              fs_last_updated = Source_time 1700000000000, fs_user_ids = [''u1'', ''u2''] \<rparr>
   \<and> item_data (snd (migrateDevices no_failures sample_rtdb empty_firestore)) ''lamp''
     = Some \<lparr> fs_name = ''Lamp'', fs_isOn = True, fs_energyLimit = 0,
              fs_last_updated = Server_timestamp 1000, fs_user_ids = [] \<rparr>
   \<and> item_data (snd (migrateDevices no_failures_later sample_rtdb
            (snd (migrateDevices no_failures sample_rtdb empty_firestore)))) ''lamp''
     = Some \<lparr> fs_name = ''Lamp'', fs_isOn = True, fs_energyLimit = 0,
              fs_last_updated = Server_timestamp 2000, fs_user_ids = [] \<rparr>
   \<and> fst (migrateDevices lamp_write_fails sample_rtdb empty_firestore)
     = Inr \<lparr>errorCount = 1, migratedCount = 1\<rparr>
   \<and> fst (migrateDevices lamp_write_fails_later sample_rtdb
            (snd (migrateDevices lamp_write_fails sample_rtdb empty_firestore)))
     = Inr \<lparr>errorCount = 1, migratedCount = 1\<rparr>
   \<and> snd (migrateDevices no_failures_later plug_only_rtdb
            (snd (migrateDevices no_failures plug_only_rtdb empty_firestore)))
     = snd (migrateDevices no_failures plug_only_rtdb empty_firestore)
   \<and> device_doc 2000 lamp \<noteq> device_doc 1000 lamp"
proof -
  let ?fs1 = "snd (migrateDevices no_failures sample_rtdb empty_firestore)"
  let ?fs2 = "snd (migrateDevices no_failures_later sample_rtdb ?fs1)"
  have devs: "val_or_empty (rtdb_devices sample_rtdb) = [(''plug'', plug), (''lamp'', lamp)]"
    by (simp add: sample_rtdb_def val_or_empty_def)
  have devs_plug: "val_or_empty (rtdb_devices plug_only_rtdb) = [(''plug'', plug)]"
    by (simp add: plug_only_rtdb_def sample_rtdb_def val_or_empty_def)
  \<comment> \<open>no call fails, the clocks differ\<close>
  have f1: "fails no_failures_later (Read_rtdb ''devices'') = fails no_failures (Read_rtdb ''devices'')"
    by (simp add: sample_defs)
  have f2: "\<forall>k \<in> set (Object_keys (val_or_empty (rtdb_devices sample_rtdb))).
           fails no_failures_later (Set_doc ''item-data'' k)
             = fails no_failures (Set_doc ''item-data'' k)"
    by (simp add: no_failures_def no_failures_later_def)
  note T = migrateDevices_twice [OF f1 f2, of empty_firestore _ lamp 2000 1000]
  have t1: "fst (migrateDevices no_failures sample_rtdb empty_firestore)
     = Inr \<lparr>errorCount = 0, migratedCount = 2\<rparr>"
    by (simp add: migration_defs sample_defs)
  from T [of "''plug''"] have "fst (migrateDevices no_failures_later sample_rtdb ?fs1)
     = fst (migrateDevices no_failures sample_rtdb empty_firestore)"
    by blast
  with t1 have t2: "fst (migrateDevices no_failures_later sample_rtdb ?fs1)
     = Inr \<lparr>errorCount = 0, migratedCount = 2\<rparr>"
    by simp
  have p1: "item_data ?fs1 ''plug''
     = Some \<lparr> fs_name = ''Plug'', fs_isOn = False, fs_energyLimit = 1000,
              fs_last_updated = Source_time 1700000000000, fs_user_ids = [''u1'', ''u2''] \<rparr>"
    by (simp add: migration_defs sample_defs)
  have "\<forall>d. (''plug'', d) \<in> set (val_or_empty (rtdb_devices sample_rtdb))
            \<longrightarrow> last_updated d \<noteq> None \<and> last_updated d \<noteq> Some 0"
    by (simp add: devs plug_def)
  with T [of "''plug''"] have "item_data ?fs2 ''plug'' = item_data ?fs1 ''plug''"
    by blast
  with p1 have p2: "item_data ?fs2 ''plug''
     = Some \<lparr> fs_name = ''Plug'', fs_isOn = False, fs_energyLimit = 1000,
              fs_last_updated = Source_time 1700000000000, fs_user_ids = [''u1'', ''u2''] \<rparr>"
    by simp
  have "distinct (Object_keys (val_or_empty (rtdb_devices sample_rtdb)))
            \<and> (''lamp'', lamp) \<in> set (val_or_empty (rtdb_devices sample_rtdb))
            \<and> \<not> fails no_failures (Read_rtdb ''devices'')
            \<and> \<not> fails no_failures (Set_doc ''item-data'' ''lamp'')"
    by (simp add: devs Object_keys_def no_failures_def)
  with T [of "''lamp''"]
  have l: "item_data ?fs1 ''lamp'' = Some (device_doc (server_time no_failures ''lamp'') lamp)
         \<and> item_data ?fs2 ''lamp'' = Some (device_doc (server_time no_failures_later ''lamp'') lamp)"
    by blast
  have nl: "last_updated lamp = None \<or> last_updated lamp = Some 0" by (simp add: lamp_def)
  with T [of "''lamp''"]
  have c: "device_doc 2000 lamp = (device_doc 1000 lamp)\<lparr>fs_last_updated := Server_timestamp 2000\<rparr>"
    by blast
  have "(2000::int) \<noteq> 1000" by simp
  with nl T [of "''lamp''"] have df: "device_doc 2000 lamp \<noteq> device_doc 1000 lamp"
    by blast
  have d1000: "device_doc 1000 lamp
     = \<lparr> fs_name = ''Lamp'', fs_isOn = True, fs_energyLimit = 0,
         fs_last_updated = Server_timestamp 1000, fs_user_ids = [] \<rparr>"
    by (simp add: device_doc_def lamp_def or_zero_def userIdsArray_def)
  from l have l1: "item_data ?fs1 ''lamp''
     = Some \<lparr> fs_name = ''Lamp'', fs_isOn = True, fs_energyLimit = 0,
              fs_last_updated = Server_timestamp 1000, fs_user_ids = [] \<rparr>"
    by (simp add: no_failures_def d1000)
  from l have l2: "item_data ?fs2 ''lamp''
     = Some \<lparr> fs_name = ''Lamp'', fs_isOn = True, fs_energyLimit = 0,
              fs_last_updated = Server_timestamp 2000, fs_user_ids = [] \<rparr>"
    by (simp add: no_failures_later_def c d1000)
  \<comment> \<open>the write of one device fails in both runs\<close>
  have g1: "fails lamp_write_fails_later (Read_rtdb ''devices'')
              = fails lamp_write_fails (Read_rtdb ''devices'')"
    by (simp add: sample_defs)
  have g2: "\<forall>k \<in> set (Object_keys (val_or_empty (rtdb_devices sample_rtdb))).
           fails lamp_write_fails_later (Set_doc ''item-data'' k)
             = fails lamp_write_fails (Set_doc ''item-data'' k)"
    by (simp add: lamp_write_fails_def lamp_write_fails_later_def)
  have u1: "fst (migrateDevices lamp_write_fails sample_rtdb empty_firestore)
     = Inr \<lparr>errorCount = 1, migratedCount = 1\<rparr>"
    by (simp add: migration_defs sample_defs)
  from migrateDevices_twice [OF g1 g2, of empty_firestore "''lamp''" lamp 2000 1000]
  have "fst (migrateDevices lamp_write_fails_later sample_rtdb
            (snd (migrateDevices lamp_write_fails sample_rtdb empty_firestore)))
          = fst (migrateDevices lamp_write_fails sample_rtdb empty_firestore)"
    by blast
  with u1 have u2: "fst (migrateDevices lamp_write_fails_later sample_rtdb
            (snd (migrateDevices lamp_write_fails sample_rtdb empty_firestore)))
     = Inr \<lparr>errorCount = 1, migratedCount = 1\<rparr>"
    by simp
  \<comment> \<open>every device carries its own \<open>last_updated\<close>\<close>
  have h1: "fails no_failures_later (Read_rtdb ''devices'') = fails no_failures (Read_rtdb ''devices'')"
    by (simp add: sample_defs)
  have h2: "\<forall>k \<in> set (Object_keys (val_or_empty (rtdb_devices plug_only_rtdb))).
           fails no_failures_later (Set_doc ''item-data'' k)
             = fails no_failures (Set_doc ''item-data'' k)"
    by (simp add: no_failures_def no_failures_later_def)
  have "\<forall>(k, d) \<in> set (val_or_empty (rtdb_devices plug_only_rtdb)).
               last_updated d \<noteq> None \<and> last_updated d \<noteq> Some 0"
    by (simp add: devs_plug plug_def)
  with migrateDevices_twice [OF h1 h2, of empty_firestore "''plug''" plug 2000 1000]
  have w: "snd (migrateDevices no_failures_later plug_only_rtdb
            (snd (migrateDevices no_failures plug_only_rtdb empty_firestore)))
     = snd (migrateDevices no_failures plug_only_rtdb empty_firestore)"
    by blast
  from t1 t2 p1 p2 l1 l2 u1 u2 w df show ?thesis by blast
qed

section \<open>The loop over the readings of one device\<close>

lemma readings_loop_filter:
  "readings_loop e d rs s = readings_loop e d (filter (\<lambda>(ts, r). \<not> empty_reading r) rs) s"
proof (induction rs arbitrary: s)
  case Nil
  then show ?case by simp
next
  case (Cons p rs)
  obtain ts r where p: "p = (ts, r)" by (cases p)
  show ?case
  proof (cases "empty_reading r")
    case True
    then show ?thesis using Cons.IH by (simp add: p)
  next
    case False
    then show ?thesis using Cons.IH by (simp add: p split: sum.splits)
  qed
qed

lemma commit_full_count [simp]: "deviceReadingCount (commit_full e s) = deviceReadingCount s"
  by (simp add: commit_full_def batch_commit_def Let_def)

lemma commit_full_total [simp]: "totalReadings (commit_full e s) = totalReadings s"
  by (simp add: commit_full_def batch_commit_def Let_def)

lemma commit_remaining_count [simp]:
  "deviceReadingCount (commit_remaining e s) = deviceReadingCount s"
  by (simp add: commit_remaining_def batch_commit_def Let_def)

lemma commit_remaining_total [simp]: "totalReadings (commit_remaining e s) = totalReadings s"
  by (simp add: commit_remaining_def batch_commit_def Let_def)

lemma readings_loop_count:
  "readings_loop e d rs s = (None, s') \<Longrightarrow>
     deviceReadingCount s' = deviceReadingCount s + length (filter (\<lambda>(ts, r). \<not> empty_reading r) rs)
     \<and> totalReadings s' = totalReadings s"
proof (induction rs arbitrary: s)
  case Nil
  then show ?case by simp
next
  case (Cons p rs)
  obtain ts r where p: "p = (ts, r)" by (cases p)
  show ?case
  proof (cases "empty_reading r")
    case True
    then show ?thesis using Cons by (simp add: p)
  next
    case False
    from Cons.prems False obtain b where
      b: "batch_set (batch s) (d, ts, daily_doc_of (the r)) = Inr b"
      and l: "readings_loop e d rs (commit_full e (s\<lparr>batch := b, batchCount := batchCount s + 1,
                     deviceReadingCount := deviceReadingCount s + 1\<rparr>)) = (None, s')"
      by (auto simp: p split: sum.splits)
    from Cons.IH [OF l] False show ?thesis by (simp add: p)
  qed
qed


lemma readings_loop_committed:
  assumes "committed (batch s)"
    and "filter (\<lambda>(ts, r). \<not> empty_reading r) rs \<noteq> []"
  shows "readings_loop e d rs s = (Some Batch_already_committed, s)"
  using assms
proof (induction rs)
  case Nil
  then show ?case by simp
next
  case (Cons p rs)
  obtain ts r where p: "p = (ts, r)" by (cases p)
  show ?case
  proof (cases "empty_reading r")
    case True
    then show ?thesis using Cons by (simp add: p)
  next
    case False
    then show ?thesis using Cons.prems(1) by (simp add: p batch_set_def)
  qed
qed

lemma readings_loop_no_more:
  assumes "filter (\<lambda>(ts, r). \<not> empty_reading r) rs = []"
  shows "readings_loop e d rs s = (None, s)"
  using readings_loop_filter [of e d rs s] assms by simp

lemma commit_full_below [simp]: "batchCount s < 500 \<Longrightarrow> commit_full e s = s"
  by (simp add: commit_full_def)

lemma commit_full_committed: "500 \<le> batchCount s \<Longrightarrow> committed (batch (commit_full e s))"
  by (simp add: commit_full_def batch_commit_def Let_def)

lemma commit_full_commits:
  "500 \<le> batchCount s \<Longrightarrow>
     commits (store (commit_full e s))
       = commits (store s)
           @ [(length (writes (batch s)), \<not> fails e (Commit_batch (length (commits (store s)))))]"
proof -
  have "commits (fold apply_write ws fs) = commits fs" for ws fs
    by (induction ws arbitrary: fs) (auto simp: apply_write_def)
  then show "500 \<le> batchCount s \<Longrightarrow>
     commits (store (commit_full e s))
       = commits (store s)
           @ [(length (writes (batch s)), \<not> fails e (Commit_batch (length (commits (store s)))))]"
    by (simp add: commit_full_def batch_commit_def Let_def)
qed

lemma readings_loop_over_500:
  assumes "\<not> committed (batch s)"
    and "batchCount s < 500"
    and "500 < batchCount s + length (filter (\<lambda>(ts, r). \<not> empty_reading r) rs)"
    and "length (writes (batch s)) = batchCount s"
  shows "\<exists>s'. readings_loop e d rs s = (Some Batch_already_committed, s')
            \<and> commits (store s')
                = commits (store s)
                    @ [(500, \<not> fails e (Commit_batch (length (commits (store s)))))]
            \<and> deviceReadingCount s' = deviceReadingCount s + (500 - batchCount s)"
  using assms
proof (induction rs arbitrary: s)
  case Nil
  then show ?case by simp
next
  case (Cons p rs)
  obtain ts r where p: "p = (ts, r)" by (cases p)
  show ?case
  proof (cases "empty_reading r")
    case True
    then show ?thesis using Cons by (simp add: p)
  next
    case False
    let ?b = "(batch s)\<lparr>writes := writes (batch s) @ [(d, ts, daily_doc_of (the r))]\<rparr>"
    let ?s1 = "s\<lparr>batch := ?b, batchCount := batchCount s + 1,
                  deviceReadingCount := deviceReadingCount s + 1\<rparr>"
    have step: "readings_loop e d (p # rs) s = readings_loop e d rs (commit_full e ?s1)"
      using False Cons.prems(1) by (simp add: p batch_set_def)
    show ?thesis
    proof (cases "batchCount s + 1 < 500")
      case True
      have "\<exists>s'. readings_loop e d rs ?s1 = (Some Batch_already_committed, s')
            \<and> commits (store s')
                = commits (store ?s1)
                    @ [(500, \<not> fails e (Commit_batch (length (commits (store ?s1)))))]
            \<and> deviceReadingCount s' = deviceReadingCount ?s1 + (500 - batchCount ?s1)"
        using Cons.prems False True by (intro Cons.IH) (simp_all add: p)
      then show ?thesis using True step by auto
    next
      case full: False
      with Cons.prems(2) have b499: "batchCount s = 499" by arith
      then have bc: "batchCount ?s1 = 500" by simp
      from Cons.prems(3) False
      have "500 < batchCount s + 1 + length (filter (\<lambda>(ts, r). \<not> empty_reading r) rs)"
        by (simp add: p)
      with b499 have "length (filter (\<lambda>(ts, r). \<not> empty_reading r) rs) \<noteq> 0" by arith
      then have more: "filter (\<lambda>(ts, r). \<not> empty_reading r) rs \<noteq> []"
        by simp
      have com: "committed (batch (commit_full e ?s1))"
        by (rule commit_full_committed) (simp add: b499)
      have log: "commits (store (commit_full e ?s1))
                   = commits (store s) @ [(500, \<not> fails e (Commit_batch (length (commits (store s)))))]"
        using commit_full_commits [of ?s1 e] b499 Cons.prems(4) by simp
      have "readings_loop e d rs (commit_full e ?s1)
              = (Some Batch_already_committed, commit_full e ?s1)"
        using com more by (rule readings_loop_committed)
      then show ?thesis using step log b499 by simp
    qed
  qed
qed

lemma readings_loop_upto_500:
  assumes "\<not> committed (batch s)"
    and "batchCount s + length (filter (\<lambda>(ts, r). \<not> empty_reading r) rs) \<le> 500"
  shows "fst (readings_loop e d rs s) = None"
  using assms
proof (induction rs arbitrary: s)
  case Nil
  then show ?case by simp
next
  case (Cons p rs)
  obtain ts r where p: "p = (ts, r)" by (cases p)
  show ?case
  proof (cases "empty_reading r")
    case True
    then show ?thesis using Cons by (simp add: p)
  next
    case False
    let ?b = "(batch s)\<lparr>writes := writes (batch s) @ [(d, ts, daily_doc_of (the r))]\<rparr>"
    let ?s1 = "s\<lparr>batch := ?b, batchCount := batchCount s + 1,
                  deviceReadingCount := deviceReadingCount s + 1\<rparr>"
    have step: "readings_loop e d (p # rs) s = readings_loop e d rs (commit_full e ?s1)"
      using False Cons.prems(1) by (simp add: p batch_set_def)
    show ?thesis
    proof (cases "batchCount s + 1 < 500")
      case True
      have "fst (readings_loop e d rs ?s1) = None"
        using Cons.prems False True by (intro Cons.IH) (simp_all add: p)
      then show ?thesis using True step by simp
    next
      case full: False
      from Cons.prems(2) False
      have "batchCount s + 1 + length (filter (\<lambda>(ts, r). \<not> empty_reading r) rs) \<le> 500"
        by (simp add: p)
      with full have "length (filter (\<lambda>(ts, r). \<not> empty_reading r) rs) = 0" by arith
      then have "filter (\<lambda>(ts, r). \<not> empty_reading r) rs = []"
        by simp
      then show ?thesis using step by (simp add: readings_loop_no_more)
    qed
  qed
qed


lemma fold_apply_write_other:
  "\<forall>(d', t', doc) \<in> set ws. (d', t') \<noteq> (d0, t0) \<Longrightarrow>
     daily (fold apply_write ws fs) d0 t0 = daily fs d0 t0"
proof (induction ws arbitrary: fs)
  case Nil
  then show ?case by simp
next
  case (Cons w ws)
  obtain d' t' doc where w: "w = (d', t', doc)" by (cases w)
  from Cons.prems have ne: "(d', t') \<noteq> (d0, t0)"
    and rest: "\<forall>(d', t', doc) \<in> set ws. (d', t') \<noteq> (d0, t0)"
    by (auto simp: w)
  have "daily (apply_write w fs) d0 t0 = daily fs d0 t0"
    using ne by (auto simp: apply_write_def w)
  then show ?case using Cons.IH [OF rest, of "apply_write w fs"] by simp
qed

lemma commit_full_other:
  assumes "\<forall>(d', t', doc) \<in> set (writes (batch s)). (d', t') \<noteq> (d0, t0)"
  shows "daily (store (commit_full e s)) d0 t0 = daily (store s) d0 t0
       \<and> writes (batch (commit_full e s)) = writes (batch s)"
  using fold_apply_write_other [OF assms]
  by (simp add: commit_full_def batch_commit_def Let_def)

lemma commit_remaining_other:
  assumes "\<forall>(d', t', doc) \<in> set (writes (batch s)). (d', t') \<noteq> (d0, t0)"
  shows "daily (store (commit_remaining e s)) d0 t0 = daily (store s) d0 t0"
  using fold_apply_write_other [OF assms]
  by (simp add: commit_remaining_def batch_commit_def Let_def)

lemma readings_loop_other:
  assumes "\<forall>(d', t', doc) \<in> set (writes (batch s)). (d', t') \<noteq> (d0, t0)"
    and "\<forall>(ts, r) \<in> set rs. \<not> empty_reading r \<longrightarrow> (d, ts) \<noteq> (d0, t0)"
  shows "daily (store (snd (readings_loop e d rs s))) d0 t0 = daily (store s) d0 t0
       \<and> (\<forall>(d', t', doc) \<in> set (writes (batch (snd (readings_loop e d rs s)))).
             (d', t') \<noteq> (d0, t0))"
  using assms
proof (induction rs arbitrary: s)
  case Nil
  then show ?case by simp
next
  case (Cons p rs)
  obtain ts r where p: "p = (ts, r)" by (cases p)
  from Cons.prems(2) have rest: "\<forall>(ts, r) \<in> set rs. \<not> empty_reading r \<longrightarrow> (d, ts) \<noteq> (d0, t0)"
    by simp
  show ?case
  proof (cases "empty_reading r")
    case True
    then show ?thesis using Cons.IH [OF Cons.prems(1) rest] by (simp add: p)
  next
    case False
    show ?thesis
    proof (cases "committed (batch s)")
      case True
      then show ?thesis using False Cons.prems(1) by (simp add: p batch_set_def)
    next
      case nc: False
      let ?b = "(batch s)\<lparr>writes := writes (batch s) @ [(d, ts, daily_doc_of (the r))]\<rparr>"
      let ?s1 = "s\<lparr>batch := ?b, batchCount := batchCount s + 1,
                    deviceReadingCount := deviceReadingCount s + 1\<rparr>"
      have step: "readings_loop e d (p # rs) s = readings_loop e d rs (commit_full e ?s1)"
        using False nc by (simp add: p batch_set_def)
      have ne: "(d, ts) \<noteq> (d0, t0)" using Cons.prems(2) False by (simp add: p)
      have inv1: "\<forall>(d', t', doc) \<in> set (writes (batch ?s1)). (d', t') \<noteq> (d0, t0)"
        using Cons.prems(1) ne by auto
      from commit_full_other [OF inv1, of e]
      have c1: "daily (store (commit_full e ?s1)) d0 t0 = daily (store s) d0 t0"
        and c2: "writes (batch (commit_full e ?s1)) = writes (batch ?s1)"
        by simp_all
      have inv2: "\<forall>(d', t', doc) \<in> set (writes (batch (commit_full e ?s1))). (d', t') \<noteq> (d0, t0)"
        unfolding c2 by (rule inv1)
      from Cons.IH [OF inv2 rest] c1 show ?thesis unfolding step by simp
    qed
  qed
qed

lemma migrate_device_readings_other:
  assumes "\<forall>(ts, r) \<in> set rs. \<not> empty_reading r \<longrightarrow> ts \<noteq> t0"
  shows "daily (store (snd (migrate_device_readings e d rs s))) d t0 = daily (store s) d t0"
proof -
  let ?s0 = "s\<lparr>batch := new_batch, batchCount := 0, deviceReadingCount := 0\<rparr>"
  have i0: "\<forall>(d', t', doc) \<in> set (writes (batch ?s0)). (d', t') \<noteq> (d, t0)"
    by (simp add: new_batch_def)
  have i1: "\<forall>(ts, r) \<in> set rs. \<not> empty_reading r \<longrightarrow> (d, ts) \<noteq> (d, t0)"
    using assms by auto
  from readings_loop_other [OF i0 i1, of e]
  have a: "daily (store (snd (readings_loop e d rs ?s0))) d t0 = daily (store s) d t0"
    and b: "\<forall>(d', t', doc) \<in> set (writes (batch (snd (readings_loop e d rs ?s0)))).
             (d', t') \<noteq> (d, t0)"
    by simp_all
  show ?thesis
  proof (cases "readings_loop e d rs ?s0")
    case (Pair x s1)
    show ?thesis
    proof (cases x)
      case None
      from b Pair have "\<forall>(d', t', doc) \<in> set (writes (batch s1)). (d', t') \<noteq> (d, t0)" by simp
      from commit_remaining_other [OF this, of e] a Pair None
      show ?thesis by (simp add: migrate_device_readings_def Let_def)
    next
      case (Some y)
      then show ?thesis using a Pair by (simp add: migrate_device_readings_def)
    qed
  qed
qed

text \<open>
  Skipping of empty readings. A reading that is an empty object (or a falsy value) is
  skipped entirely: the migration of a device's readings is the same as for the readings
  map without its empty readings (same writes, same counts, same errors); whenever the
  device's migration completes, its reading count is the number of non-empty readings,
  which is what is added to the total; the destination document at the timestamp of an
  empty reading is left as it was; and the migration of a device completes when it has at
  most 500 non-empty readings.
\<close>

theorem empty_readings_skipped:
  "migrate_device_readings e d rs s
     = migrate_device_readings e d (filter (\<lambda>(ts, r). \<not> empty_reading r) rs) s
   \<and> (migrate_device_readings e d rs s = (None, s') \<longrightarrow>
        deviceReadingCount s' = length (filter (\<lambda>(ts, r). \<not> empty_reading r) rs)
      \<and> totalReadings s' = totalReadings s + length (filter (\<lambda>(ts, r). \<not> empty_reading r) rs))
   \<and> (distinct (Object_keys rs) \<and> (t0, r0) \<in> set rs \<and> empty_reading r0 \<longrightarrow>
        daily (store (snd (migrate_device_readings e d rs s))) d t0 = daily (store s) d t0)
   \<and> (length (filter (\<lambda>(ts, r). \<not> empty_reading r) rs) \<le> 500 \<longrightarrow>
        fst (migrate_device_readings e d rs s) = None)"
proof -
  let ?s0 = "s\<lparr>batch := new_batch, batchCount := 0, deviceReadingCount := 0\<rparr>"
  have same: "migrate_device_readings e d rs s
     = migrate_device_readings e d (filter (\<lambda>(ts, r). \<not> empty_reading r) rs) s"
    unfolding migrate_device_readings_def
    by (subst readings_loop_filter) (rule refl)
  have count: "deviceReadingCount s' = length (filter (\<lambda>(ts, r). \<not> empty_reading r) rs)
      \<and> totalReadings s' = totalReadings s + length (filter (\<lambda>(ts, r). \<not> empty_reading r) rs)"
    if r: "migrate_device_readings e d rs s = (None, s')"
  proof -
    from r obtain s1 where l: "readings_loop e d rs ?s0 = (None, s1)"
      and s': "s' = (commit_remaining e s1)\<lparr>totalReadings :=
                   totalReadings (commit_remaining e s1) + deviceReadingCount (commit_remaining e s1),
                 totalDevices := totalDevices (commit_remaining e s1) + 1\<rparr>"
      by (auto simp: migrate_device_readings_def Let_def split: prod.splits option.splits)
    from readings_loop_count [OF l] show ?thesis by (simp add: s')
  qed
  have unwritten: "daily (store (snd (migrate_device_readings e d rs s))) d t0 = daily (store s) d t0"
    if a: "distinct (Object_keys rs) \<and> (t0, r0) \<in> set rs \<and> empty_reading r0"
  proof -
    have "ts \<noteq> t0" if "(ts, r) \<in> set rs" and ne: "\<not> empty_reading r" for ts r
    proof
      assume "ts = t0"
      with a that have "r = r0"
        by (metis Object_keys_def eq_key_imp_eq_value)
      with a ne show False by simp
    qed
    then have "\<forall>(ts, r) \<in> set rs. \<not> empty_reading r \<longrightarrow> ts \<noteq> t0" by auto
    then show ?thesis by (rule migrate_device_readings_other)
  qed
  have returns: "fst (migrate_device_readings e d rs s) = None"
    if "length (filter (\<lambda>(ts, r). \<not> empty_reading r) rs) \<le> 500"
  proof -
    from that have "fst (readings_loop e d rs ?s0) = None"
      by (intro readings_loop_upto_500) (simp_all add: new_batch_def)
    then show ?thesis
      by (cases "readings_loop e d rs ?s0")
         (auto simp: migrate_device_readings_def Let_def)
  qed
  from same count unwritten returns show ?thesis by blast
qed

theorem empty_readings_skipped_witness:
  "migrate_device_readings no_failures ''plug'' plug_readings (start_vars empty_firestore)
     = migrate_device_readings no_failures ''plug''
         [(''1700000000000'', Some [(''energy'', 12), (''power'', 3)]),
          (''1700172800000'', Some [(''energy'', 15)])] (start_vars empty_firestore)
   \<and> fst (migrate_device_readings no_failures ''plug'' plug_readings (start_vars empty_firestore))
       = None
   \<and> deviceReadingCount (snd (migrate_device_readings no_failures ''plug'' plug_readings
         (start_vars empty_firestore))) = 2
   \<and> totalReadings (snd (migrate_device_readings no_failures ''plug'' plug_readings
         (start_vars empty_firestore))) = 2
   \<and> errorCount (snd (migrate_device_readings no_failures ''plug'' plug_readings
         (start_vars empty_firestore))) = 0
   \<and> commits (store (snd (migrate_device_readings no_failures ''plug'' plug_readings
         (start_vars empty_firestore)))) = [(2, True)]
   \<and> daily (store (snd (migrate_device_readings no_failures ''plug'' plug_readings
         (start_vars empty_firestore)))) ''plug'' ''1700086400000'' = None"
proof -
  let ?r = "migrate_device_readings no_failures ''plug'' plug_readings (start_vars empty_firestore)"
  have ev: "fst ?r = None \<and> errorCount (snd ?r) = 0 \<and> commits (store (snd ?r)) = [(2, True)]"
    by (simp add: migration_defs sample_defs)
  then have r: "?r = (None, snd ?r)" by (metis prod.collapse)
  have h: "distinct (Object_keys plug_readings)
         \<and> (''1700086400000'', Some []) \<in> set plug_readings \<and> empty_reading (Some [])"
    by (simp add: plug_readings_def Object_keys_def empty_reading_def)
  have f: "filter (\<lambda>(ts, r). \<not> empty_reading r) plug_readings
         = [(''1700000000000'', Some [(''energy'', 12), (''power'', 3)]),
            (''1700172800000'', Some [(''energy'', 15)])]"
    by (simp add: plug_readings_def Object_keys_def empty_reading_def)
  have z: "daily (store (start_vars empty_firestore)) ''plug'' ''1700086400000'' = None"
    "totalReadings (start_vars empty_firestore) = 0"
    by (simp_all add: start_vars_def empty_firestore_def)
  note T = empty_readings_skipped [of no_failures "''plug''" plug_readings
         "start_vars empty_firestore" "snd ?r" "''1700086400000''" "Some []"]
  from T have t1: "?r = migrate_device_readings no_failures ''plug''
         (filter (\<lambda>(ts, r). \<not> empty_reading r) plug_readings) (start_vars empty_firestore)"
    by blast
  from T r have t2: "deviceReadingCount (snd ?r)
           = length (filter (\<lambda>(ts, r). \<not> empty_reading r) plug_readings)
         \<and> totalReadings (snd ?r) = totalReadings (start_vars empty_firestore)
             + length (filter (\<lambda>(ts, r). \<not> empty_reading r) plug_readings)"
    by blast
  from T h have t3: "daily (store (snd ?r)) ''plug'' ''1700086400000''
           = daily (store (start_vars empty_firestore)) ''plug'' ''1700086400000''"
    by blast
  from t2 have t2': "deviceReadingCount (snd ?r) = 2 \<and> totalReadings (snd ?r) = 2"
    unfolding f z by simp
  from t1 t2' t3 ev show ?thesis unfolding f z by (intro conjI) simp_all
qed

section \<open>More than 500 readings for one device\<close>

lemma readings_1001_count:
  "length (filter (\<lambda>(ts, r). \<not> empty_reading r) readings_1001) = 1001"
  by (simp add: readings_1001_def filter_map o_def empty_reading_def Object_keys_def)

lemma migrate_device_readings_over_500:
  assumes "500 < length (filter (\<lambda>(ts, r). \<not> empty_reading r) rs)"
  shows "\<exists>s'. migrate_device_readings e d rs s = (Some Batch_already_committed, s')
            \<and> commits (store s')
                = commits (store s)
                    @ [(500, \<not> fails e (Commit_batch (length (commits (store s)))))]"
proof -
  let ?s0 = "s\<lparr>batch := new_batch, batchCount := 0, deviceReadingCount := 0\<rparr>"
  have "\<exists>s'. readings_loop e d rs ?s0 = (Some Batch_already_committed, s')
            \<and> commits (store s')
                = commits (store ?s0)
                    @ [(500, \<not> fails e (Commit_batch (length (commits (store ?s0)))))]
            \<and> deviceReadingCount s' = deviceReadingCount ?s0 + (500 - batchCount ?s0)"
    using assms by (intro readings_loop_over_500) (simp_all add: new_batch_def)
  then show ?thesis by (auto simp: migrate_device_readings_def)
qed

lemma migrateDailyReadings_over_500:
  assumes "\<not> fails e (Read_rtdb ''readings_daily'')"
    and "rtdb_readings_daily src = Some [(d, rs)]"
    and "500 < length (filter (\<lambda>(ts, r). \<not> empty_reading r) rs)"
  shows "fst (migrateDailyReadings e src fs) = Inl Batch_already_committed
       \<and> commits (snd (migrateDailyReadings e src fs))
           = commits fs @ [(500, \<not> fails e (Commit_batch (length (commits fs))))]"
proof -
  obtain s' where
    a: "migrate_device_readings e d rs (start_vars fs) = (Some Batch_already_committed, s')"
    and b: "commits (store s') = commits (store (start_vars fs))
              @ [(500, \<not> fails e (Commit_batch (length (commits (store (start_vars fs))))))]"
    using migrate_device_readings_over_500 [OF assms(3)] by blast
  have c: "store (start_vars fs) = fs" by (simp add: start_vars_def)
  show ?thesis
    using assms(1,2) a b unfolding c
    by (simp add: migrateDailyReadings_def val_or_empty_def)
qed

text \<open>
  Claim C1 (the batch grouping boundary) at one device with 1001 non-empty readings and
  no failing call: migrateDailyReadings hands one batch of 500 writes to \<open>commit\<close>, the
  next \<open>set\<close> is made on that same, committed batch and raises, the exception leaves
  migrateDailyReadings, and migrate exits with 1. No second or third commit is issued and
  no reading count is reported.
\<close>

theorem migrateDailyReadings_1001_readings:
  "fst (migrateDailyReadings no_failures rtdb_1001 empty_firestore) = Inl Batch_already_committed
   \<and> commits (snd (migrateDailyReadings no_failures rtdb_1001 empty_firestore)) = [(500, True)]
   \<and> fst (migrate no_failures rtdb_1001 empty_firestore) = 1"
proof -
  have h1: "\<not> fails no_failures (Read_rtdb ''readings_daily'')"
    by (simp add: no_failures_def)
  have h2: "rtdb_readings_daily rtdb_1001 = Some [(''plug'', readings_1001)]"
    by (simp add: rtdb_1001_def)
  have h3: "500 < length (filter (\<lambda>(ts, r). \<not> empty_reading r) readings_1001)"
    by (simp add: readings_1001_count)
  have r: "fst (migrateDailyReadings no_failures rtdb_1001 fs) = Inl Batch_already_committed
       \<and> commits (snd (migrateDailyReadings no_failures rtdb_1001 fs))
           = commits fs @ [(500, \<not> fails no_failures (Commit_batch (length (commits fs))))]" for fs
    using h1 h2 h3 by (rule migrateDailyReadings_over_500)
  have a: "fst (migrateDailyReadings no_failures rtdb_1001 empty_firestore)
             = Inl Batch_already_committed"
    using r by blast
  have b: "commits (snd (migrateDailyReadings no_failures rtdb_1001 empty_firestore))
             = [(500, True)]"
    using r [of empty_firestore] by (simp add: empty_firestore_def no_failures_def)
  have ne: "migrateDailyReadings no_failures rtdb_1001 fs \<noteq> (Inr x, fs')" for fs x fs'
    using r [of fs] by auto
  have c: "fst (migrate no_failures rtdb_1001 empty_firestore) = 1"
    by (auto simp: migrate_def migrate_try_def ne split: prod.splits sum.splits)
  from a b c show ?thesis by blast
qed

lemma readings_501_and_empty_count:
  "length (filter (\<lambda>(ts, r). \<not> empty_reading r) readings_501_and_empty) = 501"
  by (simp add: readings_501_and_empty_def filter_map o_def empty_reading_def Object_keys_def)

text \<open>
  Claim C7 (the migrated total is the number of non-empty readings) at one device with
  one empty reading followed by 501 non-empty readings, no call failing: the empty
  reading is skipped, the run being the same as without it, but the 501st non-empty
  reading is written to the batch that has already been committed, which raises;
  migrateDailyReadings ends with that exception after one commit of 500 writes and
  reports no total, where the claim gives the total 501.
\<close>

theorem migrateDailyReadings_501_and_empty:
  "length readings_501_and_empty = 502
   \<and> length (filter (\<lambda>(ts, r). \<not> empty_reading r) readings_501_and_empty) = 501
   \<and> migrate_device_readings no_failures ''plug'' readings_501_and_empty
         (start_vars empty_firestore)
       = migrate_device_readings no_failures ''plug''
           (filter (\<lambda>(ts, r). \<not> empty_reading r) readings_501_and_empty)
           (start_vars empty_firestore)
   \<and> fst (migrate_device_readings no_failures ''plug'' readings_501_and_empty
            (start_vars empty_firestore)) = Some Batch_already_committed
   \<and> fst (migrateDailyReadings no_failures rtdb_501_and_empty empty_firestore)
       = Inl Batch_already_committed
   \<and> commits (snd (migrateDailyReadings no_failures rtdb_501_and_empty empty_firestore))
       = [(500, True)]"
proof -
  have n: "length readings_501_and_empty = 502"
    by (simp add: readings_501_and_empty_def)
  have c: "length (filter (\<lambda>(ts, r). \<not> empty_reading r) readings_501_and_empty) = 501"
    by (rule readings_501_and_empty_count)
  have same: "migrate_device_readings no_failures ''plug'' readings_501_and_empty
         (start_vars empty_firestore)
       = migrate_device_readings no_failures ''plug''
           (filter (\<lambda>(ts, r). \<not> empty_reading r) readings_501_and_empty)
           (start_vars empty_firestore)"
    unfolding migrate_device_readings_def
    by (subst readings_loop_filter) (rule refl)
  have h3: "500 < length (filter (\<lambda>(ts, r). \<not> empty_reading r) readings_501_and_empty)"
    by (simp add: c)
  from migrate_device_readings_over_500 [OF h3, of no_failures "''plug''" "start_vars empty_firestore"]
  have d: "fst (migrate_device_readings no_failures ''plug'' readings_501_and_empty
            (start_vars empty_firestore)) = Some Batch_already_committed"
    by auto
  have h1: "\<not> fails no_failures (Read_rtdb ''readings_daily'')"
    by (simp add: no_failures_def)
  have h2: "rtdb_readings_daily rtdb_501_and_empty = Some [(''plug'', readings_501_and_empty)]"
    by (simp add: rtdb_501_and_empty_def)
  from migrateDailyReadings_over_500 [OF h1 h2 h3, of empty_firestore]
  have e: "fst (migrateDailyReadings no_failures rtdb_501_and_empty empty_firestore)
       = Inl Batch_already_committed
     \<and> commits (snd (migrateDailyReadings no_failures rtdb_501_and_empty empty_firestore))
       = [(500, True)]"
    by (simp add: empty_firestore_def no_failures_def)
  from n c same d e show ?thesis by blast
qed


section \<open>Counters of the alert evaluator\<close>

lemma broadcast_counters:
  "devicesChecked (broadcast e chatIds nm en l s) = devicesChecked s
   \<and> devicesOverLimit (broadcast e chatIds nm en l s) = devicesOverLimit s
   \<and> alertsSent (broadcast e chatIds nm en l s) \<le> alertsSent s + length chatIds"
proof (induction chatIds arbitrary: s)
  case Nil
  then show ?case by simp
next
  case (Cons c cs)
  let ?i = "length (requests s)"
  let ?m = "alert_message (number_toString e) nm en l (clock e ?i)"
  let ?s1 = "s\<lparr>requests := requests s @ [(c, ?m)]\<rparr>"
  show ?case
  proof (cases "sendEnergyAlert (telegram e ?i c ?m)")
    case True
    then have "broadcast e (c # cs) nm en l s
                 = broadcast e cs nm en l (?s1\<lparr>alertsSent := alertsSent ?s1 + 1\<rparr>)"
      by (simp add: Let_def)
    then show ?thesis using Cons.IH [of "?s1\<lparr>alertsSent := alertsSent ?s1 + 1\<rparr>"] by simp
  next
    case False
    then have "broadcast e (c # cs) nm en l s = broadcast e cs nm en l ?s1"
      by (simp add: Let_def)
    then show ?thesis using Cons.IH [of ?s1] by simp
  qed
qed

lemma broadcast_after_count:
  "alertsSent (broadcast e chatIds nm en l (s\<lparr>devicesOverLimit := k\<rparr>))
     \<le> alertsSent s + length chatIds"
  using broadcast_counters [of e chatIds nm en l "s\<lparr>devicesOverLimit := k\<rparr>"] by simp

lemma check_device_try_counters:
  assumes "check_device_try e db chatIds deviceId device limit s = (x, s')"
  shows "devicesChecked s' = devicesChecked s
       \<and> (devicesOverLimit s' = devicesOverLimit s \<and> alertsSent s' = alertsSent s
          \<or> devicesOverLimit s' = devicesOverLimit s + 1
              \<and> alertsSent s' \<le> alertsSent s + length chatIds)"
  using assms
  by (auto simp: check_device_try_def Let_def broadcast_counters broadcast_after_count
           split: sum.splits option.splits list.splits if_splits)

lemma check_device_counters:
  assumes "devicesOverLimit s \<le> devicesChecked s"
    and "alertsSent s \<le> devicesOverLimit s * length chatIds"
  shows "devicesChecked (check_device e db chatIds entry s) = devicesChecked s + 1
       \<and> devicesOverLimit (check_device e db chatIds entry s)
           \<le> devicesChecked (check_device e db chatIds entry s)
       \<and> alertsSent (check_device e db chatIds entry s)
           \<le> devicesOverLimit (check_device e db chatIds entry s) * length chatIds"
proof -
  obtain deviceId device where entry: "entry = (deviceId, device)" by (cases entry)
  let ?s0 = "s\<lparr>devicesChecked := devicesChecked s + 1\<rparr>"
  show ?thesis
  proof (cases "energyLimit device = None \<or> energyLimit device = Some 0")
    case True
    then show ?thesis using assms by (auto simp: check_device_def entry Let_def)
  next
    case False
    then obtain limit where lim: "energyLimit device = Some limit" "limit \<noteq> 0" by auto
    obtain x s' where t: "check_device_try e db chatIds deviceId device limit ?s0 = (x, s')"
      by (cases "check_device_try e db chatIds deviceId device limit ?s0")
    have r: "check_device e db chatIds entry s = s'"
      using lim t by (simp add: check_device_def entry Let_def)
    from check_device_try_counters [OF t]
    have c: "devicesChecked s' = devicesChecked s + 1"
      and d: "devicesOverLimit s' = devicesOverLimit s \<and> alertsSent s' = alertsSent s
          \<or> devicesOverLimit s' = devicesOverLimit s + 1
              \<and> alertsSent s' \<le> alertsSent s + length chatIds"
      by simp_all
    from d show ?thesis
    proof
      assume "devicesOverLimit s' = devicesOverLimit s \<and> alertsSent s' = alertsSent s"
      then show ?thesis unfolding r using c assms by simp
    next
      assume a: "devicesOverLimit s' = devicesOverLimit s + 1
              \<and> alertsSent s' \<le> alertsSent s + length chatIds"
      then have "alertsSent s' \<le> devicesOverLimit s * length chatIds + length chatIds"
        using assms(2) by linarith
      then show ?thesis unfolding r using c a assms(1) by simp
    qed
  qed
qed

lemma fold_check_device_counters:
  assumes "devicesOverLimit s \<le> devicesChecked s"
    and "alertsSent s \<le> devicesOverLimit s * length chatIds"
  shows "devicesChecked (fold (check_device e db chatIds) ds s) = devicesChecked s + length ds
       \<and> devicesOverLimit (fold (check_device e db chatIds) ds s)
           \<le> devicesChecked (fold (check_device e db chatIds) ds s)
       \<and> alertsSent (fold (check_device e db chatIds) ds s)
           \<le> devicesOverLimit (fold (check_device e db chatIds) ds s) * length chatIds"
  using assms
proof (induction ds arbitrary: s)
  case Nil
  then show ?case by simp
next
  case (Cons entry ds)
  from check_device_counters [OF Cons.prems, of e db entry]
  have a: "devicesChecked (check_device e db chatIds entry s) = devicesChecked s + 1"
    and b: "devicesOverLimit (check_device e db chatIds entry s)
           \<le> devicesChecked (check_device e db chatIds entry s)"
    and c: "alertsSent (check_device e db chatIds entry s)
           \<le> devicesOverLimit (check_device e db chatIds entry s) * length chatIds"
    by simp_all
  from Cons.IH [OF b c] a show ?case by simp
qed

text \<open>
  Claim C10. Whenever testEnergyAlerts prints its summary, the counters satisfy
  devicesOverLimit \<le> devicesChecked and alertsSent \<le> devicesOverLimit times the number
  of active chats, devicesChecked is the number of devices read from the store, and the
  number of active chats is the number of keys of the chat registry. The summary is
  printed whenever the two reads succeed and return data.
\<close>

theorem alert_summary_counters:
  "(testEnergyAlerts e db = Summary s n \<longrightarrow>
      devicesOverLimit s \<le> devicesChecked s
    \<and> alertsSent s \<le> devicesOverLimit s * n
    \<and> devicesChecked s = length (val_or_empty (rtdb_devices db))
    \<and> n = length (Object_keys (val_or_empty (rtdb_active_chats db))))
   \<and> (\<not> rest_fails e ''/telegram/active_chats'' \<and> \<not> rest_fails e ''/devices''
        \<and> rtdb_active_chats db \<noteq> None \<and> rtdb_devices db \<noteq> None \<longrightarrow>
        (\<exists>s' n'. testEnergyAlerts e db = Summary s' n'))"
proof -
  have inv: "devicesOverLimit s \<le> devicesChecked s
    \<and> alertsSent s \<le> devicesOverLimit s * n
    \<and> devicesChecked s = length (val_or_empty (rtdb_devices db))
    \<and> n = length (Object_keys (val_or_empty (rtdb_active_chats db)))"
    if r: "testEnergyAlerts e db = Summary s n"
  proof -
    from r obtain activeChats ds where
      ch: "rtdb_active_chats db = Some activeChats" and dv: "rtdb_devices db = Some ds"
      and s: "s = fold (check_device e db (map (parseInt10 e) (Object_keys activeChats))) ds
                    start_alert_vars"
      and n: "n = length (map (parseInt10 e) (Object_keys activeChats))"
      by (auto simp: testEnergyAlerts_def get_active_chats_def get_devices_def Let_def
               split: if_splits option.splits)
    have "devicesOverLimit start_alert_vars \<le> devicesChecked start_alert_vars"
      and "alertsSent start_alert_vars
             \<le> devicesOverLimit start_alert_vars * length (map (parseInt10 e) (Object_keys activeChats))"
      by (simp_all add: start_alert_vars_def)
    from fold_check_device_counters [OF this, of e db ds]
    show ?thesis unfolding s n using ch dv
      by (simp add: val_or_empty_def start_alert_vars_def)
  qed
  have ex: "\<exists>s' n'. testEnergyAlerts e db = Summary s' n'"
    if "\<not> rest_fails e ''/telegram/active_chats'' \<and> \<not> rest_fails e ''/devices''
        \<and> rtdb_active_chats db \<noteq> None \<and> rtdb_devices db \<noteq> None"
    using that
    by (auto simp: testEnergyAlerts_def get_active_chats_def get_devices_def Let_def)
  from inv ex show ?thesis by blast
qed

section \<open>Rounding to a double\<close>

text \<open>
  Properties of the model of double-precision arithmetic: the exponent that
  \<open>floor_log2\<close> computes is the binary exponent of the number; a rounded number is on
  the grid of the doubles and nearest to the number; a double is rounded to itself; a
  number from \<open>2\<^sup>1\<^sup>0\<^sup>2\<^sup>4\<close> on is rounded to an infinity.
\<close>

lemma pow2_powi: "pow2 e = 2 powi e"
  by (simp add: pow2_def power_int_def field_simps)

lemma pow2_pos: "0 < pow2 e"
  by (simp add: pow2_powi)

lemma pow2_Suc: "pow2 (e + 1) = 2 * pow2 e"
  by (simp add: pow2_powi power_int_add)

lemma pow2_mono: "a \<le> b \<Longrightarrow> pow2 a \<le> pow2 b"
  by (simp add: pow2_powi power_int_increasing)

lemma pow2_nat: "pow2 (int k) = 2 ^ k"
  by (simp add: pow2_def)

lemma pow2_neg: "pow2 (- int k) = 1 / 2 ^ k"
  by (simp add: pow2_powi power_int_minus field_simps)

lemma bit_length_bounds:
  "0 < n \<Longrightarrow> 2 ^ (bit_length n - 1) \<le> n \<and> n < 2 ^ bit_length n"
proof (induction n rule: bit_length.induct)
  case (1 n)
  show ?case
  proof (cases "n div 2 = 0")
    case True
    with 1(2) have "n = Suc 0" by (simp add: div_eq_0_iff)
    moreover have "bit_length (Suc 0) = Suc 0"
      by (simp add: bit_length.simps [of "Suc 0"] bit_length.simps [of 0])
    ultimately show ?thesis by simp
  next
    case False
    then have p: "0 < n div 2" by simp
    with 1 have ih: "2 ^ (bit_length (n div 2) - 1) \<le> n div 2 \<and> n div 2 < 2 ^ bit_length (n div 2)"
      by simp
    have bl: "bit_length n = Suc (bit_length (n div 2))"
      using 1(2) by (subst bit_length.simps) simp
    have pos: "0 < bit_length (n div 2)"
      using p by (subst bit_length.simps) simp
    then obtain j where j: "bit_length (n div 2) = Suc j" by (cases "bit_length (n div 2)") auto
    from ih have "2 * 2 ^ j \<le> 2 * (n div 2)" by (simp add: j)
    also have "\<dots> \<le> n" by simp
    finally have a: "2 ^ (bit_length n - 1) \<le> n" by (simp add: bl j)
    from ih have "n div 2 + 1 \<le> 2 ^ Suc j" by (simp add: j)
    then have "2 * (n div 2) + 2 \<le> 2 * 2 ^ Suc j" by simp
    moreover have "n < 2 * (n div 2) + 2" by presburger
    ultimately have "n < 2 ^ bit_length n" by (simp add: bl j)
    with a show ?thesis by blast
  qed
qed


lemma nat_floor_bounds:
  assumes "0 \<le> (y::rat)"
  shows "of_nat (nat \<lfloor>y\<rfloor>) \<le> y \<and> y < of_nat (nat \<lfloor>y\<rfloor>) + 1"
proof -
  from assms have "0 \<le> \<lfloor>y\<rfloor>" by simp
  then have "(of_nat (nat \<lfloor>y\<rfloor>) :: rat) = of_int \<lfloor>y\<rfloor>" by simp
  moreover have "of_int \<lfloor>y\<rfloor> \<le> y" "y < of_int \<lfloor>y\<rfloor> + 1" by linarith+
  ultimately show ?thesis by simp
qed

lemma bit_length_rat_bounds:
  assumes "1 \<le> (z::rat)"
  shows "0 < bit_length (nat \<lfloor>z\<rfloor>)
       \<and> 2 ^ (bit_length (nat \<lfloor>z\<rfloor>) - 1) \<le> z \<and> z < 2 ^ bit_length (nat \<lfloor>z\<rfloor>)"
proof -
  define n where "n = nat \<lfloor>z\<rfloor>"
  from assms have "1 \<le> \<lfloor>z\<rfloor>" by simp
  then have n: "0 < n" by (simp add: n_def)
  from assms nat_floor_bounds [of z] have nz: "of_nat n \<le> z" "z < of_nat n + 1"
    by (simp_all add: n_def)
  from bit_length_bounds [OF n] have b: "2 ^ (bit_length n - 1) \<le> n" "n + 1 \<le> 2 ^ bit_length n"
    by simp_all
  from b(1) have "(of_nat (2 ^ (bit_length n - 1)) :: rat) \<le> of_nat n" by (rule of_nat_mono)
  then have "(2::rat) ^ (bit_length n - 1) \<le> of_nat n" by (simp only: of_nat_power of_nat_numeral)
  with nz(1) have lo: "2 ^ (bit_length n - 1) \<le> z" by linarith
  from b(2) have "(of_nat (n + 1) :: rat) \<le> of_nat (2 ^ bit_length n)" by (rule of_nat_mono)
  then have "(of_nat n :: rat) + 1 \<le> 2 ^ bit_length n"
    by (simp only: of_nat_power of_nat_numeral of_nat_add of_nat_1)
  with nz(2) have hi: "z < 2 ^ bit_length n" by linarith
  have "0 < bit_length n" using n by (subst bit_length.simps) simp
  with lo hi show ?thesis by (simp add: n_def)
qed

lemma floor_log2_bounds:
  assumes "0 < y"
  shows "pow2 (floor_log2 y) \<le> y \<and> y < pow2 (floor_log2 y + 1)"
proof (cases "1 \<le> y")
  case True
  define b where "b = bit_length (nat \<lfloor>y\<rfloor>)"
  from bit_length_rat_bounds [OF True]
  have p: "0 < b" and lo: "2 ^ (b - 1) \<le> y" and hi: "y < 2 ^ b" by (simp_all add: b_def)
  have f: "floor_log2 y = int (b - 1)" using True p by (simp add: floor_log2_def b_def)
  have f1: "floor_log2 y + 1 = int b" using f p by simp
  show ?thesis unfolding f1 unfolding f pow2_nat using lo hi by blast
next
  case False
  define z where "z = 1 / y"
  from False assms have z1: "1 \<le> z" by (simp add: z_def)
  have y: "y = 1 / z" by (simp add: z_def)
  have zp: "0 < z" using z1 by simp
  define b where "b = bit_length (nat \<lfloor>z\<rfloor>)"
  define k where "k = b - 1"
  from bit_length_rat_bounds [OF z1]
  have p: "0 < b" and lo: "2 ^ k \<le> z" and hi: "z < 2 ^ b" by (simp_all add: b_def k_def)
  have bk: "b = Suc k" using p by (simp add: k_def)
  have fl: "floor_log2 y = (if z = 2 ^ k then - int k else - int k - 1)"
    using False by (simp add: floor_log2_def Let_def z_def b_def k_def)
  show ?thesis
  proof (cases "z = 2 ^ k")
    case True
    have f: "floor_log2 y = - int k"
      unfolding fl using True by simp
    have "pow2 (- int k) = y" using True by (simp add: pow2_neg y)
    moreover have "pow2 (- int k + 1) = 2 * y"
      unfolding pow2_Suc pow2_neg y using True by simp
    ultimately show ?thesis using assms by (simp add: f)
  next
    case ne: False
    have f: "floor_log2 y = - int (Suc k)"
      unfolding fl using ne by simp
    have f1: "floor_log2 y + 1 = - int k" by (simp add: f)
    from lo ne have lo': "2 ^ k < z" by simp
    have a: "pow2 (- int (Suc k)) \<le> y"
      unfolding pow2_neg y using hi zp by (simp add: bk frac_le)
    have "1 / z < 1 / 2 ^ k" using lo' by (simp add: frac_less2)
    then have b: "y < pow2 (- int k)" by (simp add: pow2_neg y)
    from a b show ?thesis unfolding f1 unfolding f by blast
  qed
qed


lemma round_half_even_bounds: "\<bar>of_int (round_half_even x) - x\<bar> \<le> 1 / 2"
proof -
  have "of_int \<lfloor>x\<rfloor> \<le> x" "x < of_int \<lfloor>x\<rfloor> + 1" by linarith+
  then show ?thesis by (auto simp: round_half_even_def Let_def abs_le_iff)
qed

lemma round_half_even_of_int: "round_half_even (of_int n) = n"
  by (simp add: round_half_even_def)

lemma round_half_even_le:
  assumes "x \<le> of_int n"
  shows "round_half_even x \<le> n"
proof -
  from round_half_even_bounds [of x] assms
  have "(of_int (round_half_even x) :: rat) < of_int n + 1" by linarith
  then have "(of_int (round_half_even x) :: rat) < of_int (n + 1)" by simp
  then have "round_half_even x < n + 1" by (simp only: of_int_less_iff)
  then show ?thesis by simp
qed

lemma round_half_even_ge:
  assumes "of_int n \<le> x"
  shows "n \<le> round_half_even x"
proof -
  from round_half_even_bounds [of x] assms
  have "(of_int n :: rat) - 1 < of_int (round_half_even x)" by linarith
  then have "(of_int (n - 1) :: rat) < of_int (round_half_even x)" by simp
  then have "n - 1 < round_half_even x" by (simp only: of_int_less_iff)
  then show ?thesis by simp
qed

text \<open>
  The rounded number is on the grid of the doubles at the exponent of the number, with a
  significand of at most \<open>2\<^sup>5\<^sup>3\<close>, and within half a unit in the last place of the number.
\<close>

lemma round_to_double_nearest:
  assumes "x \<noteq> 0" and "round_to_double x = Finite r"
  defines "ulp \<equiv> pow2 (max (floor_log2 \<bar>x\<bar>) (- 1022) - 52)"
  shows "\<bar>r - x\<bar> \<le> ulp / 2"
    and "\<exists>m. \<bar>m\<bar> \<le> 2 ^ 53 \<and> r = of_int m * ulp"
    and "\<bar>r\<bar> < pow2 1024"
    and "(0 < r) = (0 < x) \<or> r = 0"
proof -
  define y where "y = \<bar>x\<bar>"
  define e where "e = max (floor_log2 y) (- 1022)"
  define m where "m = round_half_even (y / ulp)"
  have u: "ulp = pow2 (e - 52)" by (simp add: ulp_def e_def y_def)
  have up: "0 < ulp" by (simp add: u pow2_pos)
  have yp: "0 < y" using assms(1) by (simp add: y_def)
  from assms(1) assms(2) have fin: "\<not> pow2 1024 \<le> of_int m * ulp"
    and r: "r = (if 0 < x then of_int m * ulp else - (of_int m * ulp))"
    by (auto simp: round_to_double_def Let_def y_def [symmetric] e_def [symmetric] u [symmetric]
          m_def [symmetric] split: if_splits)
  have m0: "0 \<le> m"
    unfolding m_def using yp up by (intro round_half_even_ge) simp
  from round_half_even_bounds [of "y / ulp"] have "\<bar>of_int m - y / ulp\<bar> \<le> 1 / 2"
    by (simp add: m_def)
  then have "\<bar>of_int m - y / ulp\<bar> * ulp \<le> 1 / 2 * ulp"
    using up by (intro mult_right_mono) simp_all
  then have "\<bar>(of_int m - y / ulp) * ulp\<bar> \<le> ulp / 2"
    using up by (simp add: abs_mult)
  moreover have "(of_int m - y / ulp) * ulp = of_int m * ulp - y"
    using up by (simp add: left_diff_distrib)
  ultimately have d: "\<bar>of_int m * ulp - y\<bar> \<le> ulp / 2"
    by simp
  show "\<bar>r - x\<bar> \<le> ulp / 2"
  proof (cases "0 < x")
    case True
    with d r show ?thesis by (simp add: y_def)
  next
    case False
    then have "y = - x" by (simp add: y_def)
    with r False have "r - x = - (of_int m * ulp - y)" by simp
    then have "\<bar>r - x\<bar> = \<bar>of_int m * ulp - y\<bar>" by (simp only: abs_minus)
    with d show ?thesis by simp
  qed
  from floor_log2_bounds [OF yp] have "y < pow2 (floor_log2 y + 1)" by blast
  also have "\<dots> \<le> pow2 (e + 1)"
    by (simp add: pow2_powi e_def power_int_increasing)
  also have "\<dots> = 2 ^ 53 * ulp"
    by (simp add: u pow2_powi power_int_diff power_int_add)
  finally have "y / ulp \<le> 2 ^ 53" using up by (simp add: field_simps)
  then have "y / ulp \<le> of_int (2 ^ 53)" by simp
  then have m53: "m \<le> 2 ^ 53" unfolding m_def by (rule round_half_even_le)
  show "\<exists>m. \<bar>m\<bar> \<le> 2 ^ 53 \<and> r = of_int m * ulp"
  proof (cases "0 < x")
    case True
    with r m0 m53 show ?thesis by (intro exI [of _ m]) simp
  next
    case False
    with r m0 m53 show ?thesis by (intro exI [of _ "- m"]) simp
  qed
  have nn: "0 \<le> of_int m * ulp" using m0 up by simp
  with fin r show "\<bar>r\<bar> < pow2 1024" by (auto split: if_splits)
  show "(0 < r) = (0 < x) \<or> r = 0"
  proof (cases "0 < x")
    case True
    with r nn have "0 \<le> r" by simp
    with True show ?thesis by (auto simp: less_le)
  next
    case False
    with r nn have "r \<le> 0" by simp
    with False show ?thesis by auto
  qed
qed


text \<open>A double is rounded to itself.\<close>

lemma round_to_double_of_double:
  assumes m: "\<bar>m\<bar> < 2 ^ 53" and k: "- 1074 \<le> k" "k \<le> 971"
  shows "round_to_double (of_int m * pow2 k) = Finite (of_int m * pow2 k)"
proof (cases "m = 0")
  case True
  then show ?thesis by (simp add: round_to_double_def)
next
  case False
  define x where "x = (of_int m :: rat) * pow2 k"
  define y where "y = \<bar>x\<bar>"
  define e where "e = max (floor_log2 y) (- 1022)"
  define ulp where "ulp = pow2 (e - 52)"
  have x0: "x \<noteq> 0" using False pow2_pos [of k] by (simp add: x_def)
  have y: "y = of_int \<bar>m\<bar> * pow2 k"
    using pow2_pos [of k] by (simp add: y_def x_def abs_mult)
  have yp: "0 < y" using x0 by (simp add: y_def)
  have up: "0 < ulp" by (simp add: ulp_def pow2_pos)
  from m have "(of_int \<bar>m\<bar> :: rat) < of_int (2 ^ 53)" by (simp only: of_int_less_iff)
  then have "y < 2 ^ 53 * pow2 k" using pow2_pos [of k] by (simp add: y)
  also have "\<dots> = pow2 (53 + k)" by (simp add: pow2_powi power_int_add)
  finally have yhi: "y < pow2 (53 + k)" .
  have "floor_log2 y < 53 + k"
  proof (rule ccontr)
    assume "\<not> floor_log2 y < 53 + k"
    then have "pow2 (53 + k) \<le> pow2 (floor_log2 y)"
      by (simp add: pow2_powi power_int_increasing)
    with floor_log2_bounds [OF yp] yhi show False by simp
  qed
  with k(1) have ek: "e - 52 \<le> k" by (simp add: e_def)
  define j where "j = nat (k - (e - 52))"
  have "pow2 k = pow2 (int j + (e - 52))" using ek by (simp add: j_def)
  also have "\<dots> = 2 ^ j * ulp" by (simp add: pow2_powi power_int_add ulp_def)
  finally have pk: "pow2 k = 2 ^ j * ulp" .
  have "y / ulp = of_int (\<bar>m\<bar> * 2 ^ j)" using up by (simp add: y pk)
  then have rh: "round_half_even (y / ulp) = \<bar>m\<bar> * 2 ^ j"
    by (simp only: round_half_even_of_int)
  have r: "of_int (round_half_even (y / ulp)) * ulp = y"
    unfolding rh by (simp add: y pk)
  have "pow2 (53 + k) \<le> pow2 1024" using k(2) by (intro pow2_mono) simp
  with yhi have fin: "\<not> pow2 1024 \<le> y" by simp
  have "round_to_double x = Finite (if 0 < x then y else - y)"
    using x0 fin
    by (simp add: round_to_double_def Let_def y_def [symmetric] e_def [symmetric]
          ulp_def [symmetric] r)
  also have "(if 0 < x then y else - y) = x" by (simp add: y_def)
  finally show ?thesis by (simp add: x_def)
qed


text \<open>From \<open>2\<^sup>1\<^sup>0\<^sup>2\<^sup>4\<close>, a number is rounded to an infinity.\<close>

lemma round_to_double_overflow:
  assumes "pow2 1024 \<le> \<bar>x\<bar>"
  shows "round_to_double x = (if 0 < x then Infinity else Minus_infinity)"
proof -
  define y where "y = \<bar>x\<bar>"
  define e where "e = max (floor_log2 y) (- 1022)"
  define ulp where "ulp = pow2 (e - 52)"
  have yp: "0 < y" using assms pow2_pos [of 1024] by (simp add: y_def)
  then have x0: "x \<noteq> 0" by (simp add: y_def)
  have up: "0 < ulp" by (simp add: ulp_def pow2_pos)
  have "1024 < floor_log2 y + 1"
  proof (rule ccontr)
    assume "\<not> 1024 < floor_log2 y + 1"
    then have "pow2 (floor_log2 y + 1) \<le> pow2 1024" by (intro pow2_mono) simp
    with floor_log2_bounds [OF yp] assms show False by (simp add: y_def)
  qed
  then have e: "e = floor_log2 y" "1024 \<le> e" by (simp_all add: e_def)
  have "pow2 e = pow2 (52 + (e - 52))" by simp
  also have "\<dots> = 2 ^ 52 * ulp" unfolding ulp_def pow2_powi by (subst power_int_add) simp_all
  finally have pe: "pow2 e = 2 ^ 52 * ulp" .
  from floor_log2_bounds [OF yp] have "2 ^ 52 * ulp \<le> y" by (simp add: e(1) [symmetric] pe)
  then have "of_int (2 ^ 52) \<le> y / ulp" using up by (simp add: field_simps)
  then have "2 ^ 52 \<le> round_half_even (y / ulp)" by (rule round_half_even_ge)
  then have "(of_int (2 ^ 52) :: rat) \<le> of_int (round_half_even (y / ulp))"
    by (simp only: of_int_le_iff)
  then have "of_int (2 ^ 52) * ulp \<le> of_int (round_half_even (y / ulp)) * ulp"
    using up by (intro mult_right_mono) simp_all
  then have "pow2 e \<le> of_int (round_half_even (y / ulp)) * ulp" by (simp add: pe)
  moreover have "pow2 1024 \<le> pow2 e" using e(2) by (rule pow2_mono)
  ultimately have "pow2 1024 \<le> of_int (round_half_even (y / ulp)) * ulp" by simp
  then show ?thesis
    using x0
    by (simp add: round_to_double_def Let_def y_def [symmetric] e_def [symmetric]
          ulp_def [symmetric])
qed

lemma overflow_example:
  "number_minus (2 ^ 1023) (- (2 ^ 1023)) = Infinity"
  "number_toFixed2 f (number_minus (2 ^ 1023) (- (2 ^ 1023))) = ''Infinity''"
proof -
  have "pow2 1024 \<le> \<bar>2 ^ 1023 - - (2 ^ 1023) :: rat\<bar>" by (simp add: pow2_def)
  from round_to_double_overflow [OF this]
  show "number_minus (2 ^ 1023) (- (2 ^ 1023)) = Infinity"
    by (simp add: number_minus_def)
  then show "number_toFixed2 f (number_minus (2 ^ 1023) (- (2 ^ 1023))) = ''Infinity''"
    by (simp only: number_toFixed2_def number.case)
qed

section \<open>Evaluation of numerals and strings\<close>

lemma decimal_digit: "n < 10 \<Longrightarrow> decimal n = [digit_char n]"
  by (simp add: decimal.simps)

lemma decimal_more: "10 \<le> n \<Longrightarrow> decimal n = decimal (n div 10) @ [digit_char (n mod 10)]"
  by (subst decimal.simps) simp

lemma floor_rat_numeral_div: "\<lfloor>(numeral a :: rat) / numeral b\<rfloor> = numeral a div numeral b"
  using floor_divide_of_int_eq [of "numeral a" "numeral b", where ?'a = rat] by simp

lemma bit_length_zero: "bit_length 0 = 0"
  by (simp add: bit_length.simps)

lemma bit_length_pos: "0 < n \<Longrightarrow> bit_length n = Suc (bit_length (n div 2))"
  by (subst bit_length.simps) simp

lemmas toFixed2_eval =
  toFixed2_def Let_def decimal_digit decimal_more digit_char_def floor_rat_numeral_div

lemmas number_eval =
  floor_log2_def pow2_def round_half_even_def Let_def bit_length_zero bit_length_pos
  floor_rat_numeral_div

lemma toFixed2_examples:
  "toFixed2 f (2501 / 2) = ''1250.50''"
  "toFixed2 f 1000 = ''1000.00''"
  "toFixed2 f (99999 / 100) = ''999.99''"
  "toFixed2 f (107 / 8) = ''13.38''"
  "toFixed2 f (3602879701896397 / 36028797018963968) = ''0.10''"
  by (simp_all add: toFixed2_eval)

text \<open>
  Rounding: \<open>1 / 10\<close> is not a double, and the double nearest to it is
  \<open>3602879701896397 / 2\<^sup>5\<^sup>5\<close>; an integer above \<open>2\<^sup>5\<^sup>3\<close> halfway between two doubles goes to
  the one with the even significand.
\<close>

lemma round_to_double_examples:
  "round_to_double (1 / 10) = Finite (3602879701896397 / 36028797018963968)"
  "round_to_double (1 / 8) = Finite (1 / 8)"
  "round_to_double (2501 / 2) = Finite (2501 / 2)"
  "round_to_double (107 / 8) = Finite (107 / 8)"
  "round_to_double (2 ^ 53 + 1) = Finite (2 ^ 53)"
  "round_to_double (2 ^ 53 + 3) = Finite (2 ^ 53 + 4)"
  unfolding round_to_double_def Let_def
  by (simp_all add: number_eval)

text \<open>
  Subtraction: \<^verbatim>\<open>1250.5 - 1000\<close> is exact; \<^verbatim>\<open>13.375 - 0.1\<close> and \<^verbatim>\<open>1000.5 - 0.005\<close>
  are rounded.
\<close>

lemma number_minus_examples:
  "number_minus (2501 / 2) 1000 = Finite (501 / 2)"
  "number_minus (107 / 8) (3602879701896397 / 36028797018963968)
     = Finite (7473160631667917 / 562949953421312)"
  "number_minus (2001 / 2) (5764607523034235 / 1152921504606846976)
     = Finite (8800447088253993 / 8796093022208)"
  unfolding number_minus_def round_to_double_def Let_def
  by (simp_all add: number_eval)

text \<open>
  The overage that is printed is the rounded difference: for \<^verbatim>\<open>13.375 - 0.1\<close> it is
  \<^verbatim>\<open>13.28\<close>, where the exact difference, just below 13.275, would give \<^verbatim>\<open>13.27\<close>.
\<close>

lemma overage_examples:
  "number_toFixed2 f (number_minus (2501 / 2) 1000) = ''250.50''"
  "number_toFixed2 f (number_minus (107 / 8) (3602879701896397 / 36028797018963968)) = ''13.28''"
  "toFixed2 f (107 / 8 - 3602879701896397 / 36028797018963968) = ''13.27''"
  "number_toFixed2 f (number_minus (2001 / 2) (5764607523034235 / 1152921504606846976))
     = ''1000.50''"
  "toFixed2 f (2001 / 2 - 5764607523034235 / 1152921504606846976) = ''1000.49''"
  by (simp_all add: number_minus_examples number_toFixed2_def toFixed2_eval)

text \<open>From \<open>10\<^sup>2\<^sup>1\<close>, \<^verbatim>\<open>toFixed\<close> gives what \<^verbatim>\<open>toString\<close> gives.\<close>

lemma toFixed2_large:
  "10 ^ 21 \<le> \<bar>x\<bar> \<Longrightarrow> toFixed2 f x = (if x < 0 then ''-'' else '''') @ f \<bar>x\<bar>"
  by (simp add: toFixed2_def Let_def)

text \<open>
  Below \<open>10\<^sup>2\<^sup>1\<close>, the result of \<^verbatim>\<open>toFixed(2)\<close> is a decimal numeral with two digits after
  the point, and the number that it denotes is within 0.005 of the magnitude.
\<close>

lemma two_digits_sum: "100 * (m div 100) + 10 * (m mod 100 div 10) + m mod 10 = (m::nat)"
proof -
  have "m mod 100 mod 10 = m mod 10" by (simp add: mod_mod_cancel)
  then have a: "10 * (m mod 100 div 10) + m mod 10 = m mod 100"
    using div_mult_mod_eq [of "m mod 100" 10] by (simp add: mult.commute)
  have "100 * (m div 100) + m mod 100 = m"
    using div_mult_mod_eq [of m 100] by (simp only: mult.commute)
  with a show ?thesis by (simp only: add.assoc)
qed

lemma two_digits_less: "(m::nat) mod 100 div 10 < 10" "m mod 10 < 10"
  by (simp_all add: less_mult_imp_div_less)

lemma toFixed2_two_decimals:
  assumes "\<bar>q\<bar> < 10 ^ 21"
  shows "\<exists>n a b. a < 10 \<and> b < 10
           \<and> toFixed2 f q
               = (if q < 0 then ''-'' else '''') @ decimal n @ ''.'' @ [digit_char a, digit_char b]
           \<and> \<bar>of_nat (100 * n + 10 * a + b) / 100 - \<bar>q\<bar>\<bar> \<le> 1 / 200"
proof -
  define z where "z = \<bar>q\<bar> * 100 + 1 / 2"
  define m where "m = nat \<lfloor>z\<rfloor>"
  have "0 \<le> z" by (simp add: z_def)
  then have "0 \<le> \<lfloor>z\<rfloor>" by simp
  then have m: "(of_nat m :: rat) = of_int \<lfloor>z\<rfloor>" by (simp add: m_def)
  have "of_int \<lfloor>z\<rfloor> \<le> z" "z < of_int \<lfloor>z\<rfloor> + 1" by linarith+
  with m have b: "of_nat m \<le> z" "z < of_nat m + 1" by simp_all
  note s = two_digits_sum [of m]
  have "\<bar>of_nat m / 100 - \<bar>q\<bar>\<bar> \<le> 1 / 200"
    using b unfolding z_def by linarith
  then have e: "\<bar>of_nat (100 * (m div 100) + 10 * (m mod 100 div 10) + m mod 10) / 100 - \<bar>q\<bar>\<bar>
                  \<le> 1 / 200"
    by (simp only: s)
  have t: "toFixed2 f q = (if q < 0 then ''-'' else '''') @ decimal (m div 100) @ ''.''
             @ [digit_char (m mod 100 div 10), digit_char (m mod 10)]"
    using assms by (simp add: toFixed2_def Let_def m_def z_def)
  from t e two_digits_less [of m] show ?thesis by blast
qed

lemma parse_digits_examples:
  "parse_digits ''42'' = Some 42"
  "parse_digits ''1700000000000'' = Some 1700000000000"
  "parse_digits ''1700086400000'' = Some 1700086400000"
  "parse_digits ''1700172800000'' = Some 1700172800000"
  by (simp_all add: parse_digits_def is_digit_def)

section \<open>The latest reading and the broadcast\<close>

lemma insert_sorted_set: "set (insert_sorted cmp x ys) = insert x (set ys)"
  by (induction ys) auto

lemma array_sort_Cons: "array_sort cmp (x # xs) = insert_sorted cmp x (array_sort cmp xs)"
  by (simp add: array_sort_def)

lemma array_sort_set: "set (array_sort cmp xs) = set xs"
  by (induction xs) (simp_all add: array_sort_Cons insert_sorted_set, simp add: array_sort_def)

lemma insert_sorted_desc:
  fixes f :: "'a \<Rightarrow> int"
  assumes "\<forall>y \<in> set ys. (cmp x y \<le> 0) = (f y \<le> f x)"
    and "sorted_wrt (\<lambda>a b. f b \<le> f a) ys"
  shows "sorted_wrt (\<lambda>a b. f b \<le> f a) (insert_sorted cmp x ys)"
  using assms
proof (induction ys)
  case Nil
  then show ?case by simp
next
  case (Cons y ys)
  show ?case
  proof (cases "cmp x y \<le> 0")
    case True
    with Cons.prems have "f y \<le> f x" by simp
    moreover from Cons.prems(2) have "\<forall>z \<in> set ys. f z \<le> f y" by simp
    ultimately have "\<forall>z \<in> set (y # ys). f z \<le> f x" by fastforce
    then show ?thesis using True Cons.prems(2) by simp
  next
    case False
    with Cons.prems have "f x \<le> f y" by fastforce
    moreover have "sorted_wrt (\<lambda>a b. f b \<le> f a) (insert_sorted cmp x ys)"
      using Cons by simp
    ultimately show ?thesis using False Cons.prems(2) by (simp add: insert_sorted_set)
  qed
qed

lemma array_sort_desc:
  fixes f :: "'a \<Rightarrow> int"
  assumes "\<forall>a \<in> set xs. \<forall>b \<in> set xs. (cmp a b \<le> 0) = (f b \<le> f a)"
  shows "sorted_wrt (\<lambda>a b. f b \<le> f a) (array_sort cmp xs)"
  using assms
proof (induction xs)
  case Nil
  then show ?case by (simp add: array_sort_def)
next
  case (Cons x xs)
  have "sorted_wrt (\<lambda>a b. f b \<le> f a) (array_sort cmp xs)"
    using Cons by simp
  moreover have "\<forall>y \<in> set (array_sort cmp xs). (cmp x y \<le> 0) = (f y \<le> f x)"
    using Cons.prems by (simp add: array_sort_set)
  ultimately show ?case unfolding array_sort_Cons by (intro insert_sorted_desc)
qed

lemma array_sort_first:
  fixes f :: "'a \<Rightarrow> int"
  assumes "\<forall>a \<in> set xs. \<forall>b \<in> set xs. (cmp a b \<le> 0) = (f b \<le> f a)"
    and "array_sort cmp xs = k # rest"
  shows "k \<in> set xs \<and> (\<forall>k' \<in> set xs. f k' \<le> f k)"
proof -
  have s: "set xs = insert k (set rest)"
    using array_sort_set [of cmp xs] assms(2) by simp
  have "sorted_wrt (\<lambda>a b. f b \<le> f a) (k # rest)"
    using array_sort_desc [OF assms(1)] assms(2) by simp
  then have "\<forall>z \<in> set rest. f z \<le> f k" by simp
  then show ?thesis unfolding s by simp
qed

lemma newest_first_parsed:
  assumes "parseInt e a \<noteq> None" and "parseInt e b \<noteq> None"
  shows "(newest_first e a b \<le> 0) = (the (parseInt e b) \<le> the (parseInt e a))"
  using assms by (auto simp: newest_first_def)

lemma latest_timestamp:
  assumes "\<forall>k \<in> set keys. parseInt e k \<noteq> None"
    and "keys \<noteq> []"
  shows "\<exists>k rest. array_sort (newest_first e) keys = k # rest \<and> k \<in> set keys
           \<and> (\<forall>k' \<in> set keys. the (parseInt e k') \<le> the (parseInt e k))"
proof -
  have "set (array_sort (newest_first e) keys) \<noteq> {}"
    using assms(2) by (simp add: array_sort_set)
  then obtain k rest where kr: "array_sort (newest_first e) keys = k # rest"
    by (cases "array_sort (newest_first e) keys") auto
  have "\<forall>a \<in> set keys. \<forall>b \<in> set keys.
          (newest_first e a b \<le> 0) = (the (parseInt e b) \<le> the (parseInt e a))"
    using assms(1) by (simp add: newest_first_parsed)
  from array_sort_first [OF this kr] kr show ?thesis by blast
qed

lemma broadcast_requests:
  "requests (broadcast e chatIds nm en l s)
     = requests s @ map (\<lambda>(i, c). (c, alert_message (number_toString e) nm en l (clock e i)))
                        (enumerate (length (requests s)) chatIds)"
proof (induction chatIds arbitrary: s)
  case Nil
  then show ?case by simp
next
  case (Cons c cs)
  let ?i = "length (requests s)"
  let ?m = "alert_message (number_toString e) nm en l (clock e ?i)"
  let ?s1 = "s\<lparr>requests := requests s @ [(c, ?m)]\<rparr>"
  show ?case
  proof (cases "sendEnergyAlert (telegram e ?i c ?m)")
    case True
    then have "broadcast e (c # cs) nm en l s
                 = broadcast e cs nm en l (?s1\<lparr>alertsSent := alertsSent ?s1 + 1\<rparr>)"
      by (simp add: Let_def)
    then show ?thesis using Cons.IH [of "?s1\<lparr>alertsSent := alertsSent ?s1 + 1\<rparr>"] by simp
  next
    case False
    then have "broadcast e (c # cs) nm en l s = broadcast e cs nm en l ?s1"
      by (simp add: Let_def)
    then show ?thesis using Cons.IH [of ?s1] by simp
  qed
qed

lemma alert_message_contains:
  "sublist (toFixed2 f en) (alert_message f nm en l ts)
   \<and> sublist (toFixed2 f l) (alert_message f nm en l ts)
   \<and> sublist (number_toFixed2 f (number_minus en l)) (alert_message f nm en l ts)"
proof (intro conjI)
  show "sublist (toFixed2 f en) (alert_message f nm en l ts)"
    unfolding sublist_def alert_message_def Let_def
    by (rule exI [of _ "warning_sign @ '' <b>Energy Limit Exceeded</b>'' @ newline @ newline
         @ ''Device: <b>'' @ nm @ ''</b>'' @ newline @ ''Current: <b>''"]) simp
  show "sublist (toFixed2 f l) (alert_message f nm en l ts)"
    unfolding sublist_def alert_message_def Let_def
    by (rule exI [of _ "warning_sign @ '' <b>Energy Limit Exceeded</b>'' @ newline @ newline
         @ ''Device: <b>'' @ nm @ ''</b>'' @ newline @ ''Current: <b>'' @ toFixed2 f en
         @ '' kWh</b>'' @ newline @ ''Limit: <b>''"]) simp
  show "sublist (number_toFixed2 f (number_minus en l)) (alert_message f nm en l ts)"
    unfolding sublist_def alert_message_def Let_def
    by (rule exI [of _ "warning_sign @ '' <b>Energy Limit Exceeded</b>'' @ newline @ newline
         @ ''Device: <b>'' @ nm @ ''</b>'' @ newline @ ''Current: <b>'' @ toFixed2 f en
         @ '' kWh</b>'' @ newline @ ''Limit: <b>'' @ toFixed2 f l @ '' kWh</b>'' @ newline
         @ ''Over by: <b>''"]) simp
qed

section \<open>A run of the alert evaluator on the sample data\<close>

lemma alert_sort_example:
  assumes "parseInt e = parse_digits"
  shows "array_sort (newest_first e) (Object_keys alert_readings)
     = [''1700172800000'', ''1700086400000'', ''1700000000000'']"
  by (simp add: array_sort_def newest_first_def assms Object_keys_def alert_readings_def
        parse_digits_examples)

lemma alert_ok_parseInt: "parseInt alert_ok = parse_digits"
  by (simp add: alert_ok_def)

lemma plug_resolve_example: "resolve_name alert_ok alert_rtdb ''plug'' plug = Inr ''Heater''"
  by (simp add: resolve_name_def get_user_def alert_ok_def alert_rtdb_def plug_def
        Object_keys_def get_prop_def)

lemma plug_readings_example:
  "get_readings alert_ok alert_rtdb ''plug'' = Inr (Some alert_readings)"
  by (simp add: get_readings_def alert_ok_def alert_rtdb_def get_prop_def)

lemma plug_energy_example:
  "energy_of (get_prop alert_readings ''1700172800000'') = Some (2501 / 2)"
  by (simp add: energy_of_def get_prop_def alert_readings_def)

lemma plug_check_example:
  "check_device alert_ok alert_rtdb [Some 42] (''plug'', plug) start_alert_vars
     = \<lparr> devicesChecked = 1, devicesOverLimit = 1, alertsSent = 1,
         requests = [(Some 42, alert_message (number_toString alert_ok) ''Heater'' (2501 / 2) 1000
                                ''Nov 2, 2026, 3:34 AM'')] \<rparr>"
proof -
  have l: "energyLimit plug = Some 1000" by (simp add: plug_def)
  have t: "telegram alert_ok i c m = Json_ok True" for i c m by (simp add: alert_ok_def)
  have c: "clock alert_ok i = ''Nov 2, 2026, 3:34 AM''" for i by (simp add: alert_ok_def)
  show ?thesis
    by (simp add: check_device_def check_device_try_def l plug_readings_example
          alert_sort_example [OF alert_ok_parseInt] plug_energy_example plug_resolve_example Let_def
          sendEnergyAlert_def t c start_alert_vars_def)
qed

lemma lamp_check_example:
  "check_device e db chatIds (''lamp'', lamp) s = s\<lparr>devicesChecked := devicesChecked s + 1\<rparr>"
  by (simp add: check_device_def lamp_def Let_def)


theorem alert_summary_counters_witness:
  "testEnergyAlerts alert_ok alert_rtdb
     = Summary \<lparr> devicesChecked = 2, devicesOverLimit = 1, alertsSent = 1,
         requests = [(Some 42, alert_message (number_toString alert_ok) ''Heater'' (2501 / 2) 1000
                                ''Nov 2, 2026, 3:34 AM'')] \<rparr> 1
   \<and> (1::nat) \<le> 2 \<and> (1::nat) \<le> 1 * 1"
proof -
  let ?s = "\<lparr> devicesChecked = 2, devicesOverLimit = 1, alertsSent = 1,
         requests = [(Some 42, alert_message (number_toString alert_ok) ''Heater'' (2501 / 2) 1000
                                ''Nov 2, 2026, 3:34 AM'')] \<rparr>"
  have r: "testEnergyAlerts alert_ok alert_rtdb = Summary ?s 1"
  proof -
    have a: "get_active_chats alert_ok alert_rtdb = Inr (rtdb_active_chats alert_rtdb)"
      and d: "get_devices alert_ok alert_rtdb = Inr (Some [(''plug'', plug), (''lamp'', lamp)])"
      by (simp_all add: get_active_chats_def get_devices_def alert_ok_def alert_rtdb_def)
    have k: "map (parseInt10 alert_ok) (Object_keys (val_or_empty (rtdb_active_chats alert_rtdb)))
               = [Some 42]"
      by (simp add: alert_ok_def alert_rtdb_def val_or_empty_def Object_keys_def
            parse_digits_examples)
    have c: "rtdb_active_chats alert_rtdb \<noteq> None" by (simp add: alert_rtdb_def)
    then obtain ch where ch: "rtdb_active_chats alert_rtdb = Some ch" by blast
    with k have k': "map (parseInt10 alert_ok) (Object_keys ch) = [Some 42]"
      by (simp add: val_or_empty_def)
    show ?thesis
      by (simp add: testEnergyAlerts_def a d ch k' Let_def plug_check_example lamp_check_example)
  qed
  from alert_summary_counters [of alert_ok alert_rtdb ?s 1] r
  show ?thesis by simp
qed

section \<open>Alert policy for one device\<close>

lemma check_device_no_limit:
  assumes "energyLimit device = None \<or> energyLimit device = Some 0"
  shows "requests (check_device e db chatIds (deviceId, device) s) = requests s"
  using assms by (auto simp: check_device_def Let_def)

lemma check_device_try_failed:
  assumes "get_readings e db deviceId = Inr None \<or> get_readings e db deviceId = Inr (Some [])
           \<or> get_readings e db deviceId = Inl x \<or> resolve_name e db deviceId device = Inl x"
  shows "requests (snd (check_device_try e db chatIds deviceId device limit s)) = requests s"
  using assms
  by (auto simp: check_device_try_def Let_def array_sort_def Object_keys_def
           split: sum.splits option.splits list.splits)

lemma check_device_failed:
  assumes "get_readings e db deviceId = Inr None \<or> get_readings e db deviceId = Inr (Some [])
           \<or> get_readings e db deviceId = Inl x \<or> resolve_name e db deviceId device = Inl x"
  shows "requests (check_device e db chatIds (deviceId, device) s) = requests s"
proof (cases "energyLimit device = None \<or> energyLimit device = Some 0")
  case True
  then show ?thesis by (rule check_device_no_limit)
next
  case False
  then obtain limit where l: "energyLimit device = Some limit" "limit \<noteq> 0" by auto
  from check_device_try_failed [OF assms, of chatIds limit "s\<lparr>devicesChecked := devicesChecked s + 1\<rparr>"]
  show ?thesis using l by (simp add: check_device_def Let_def)
qed

lemma check_device_latest:
  assumes lim: "energyLimit device = Some limit" "limit \<noteq> 0"
    and rd: "get_readings e db deviceId = Inr (Some readings)"
    and ne: "readings \<noteq> []"
    and ps: "\<forall>k \<in> set (Object_keys readings). parseInt e k \<noteq> None"
    and nm: "resolve_name e db deviceId device = Inr nm"
  shows "\<exists>k \<in> set (Object_keys readings).
          (\<forall>k' \<in> set (Object_keys readings). the (parseInt e k') \<le> the (parseInt e k))
          \<and> requests (check_device e db chatIds (deviceId, device) s)
              = requests s @
                (case energy_of (get_prop readings k) of
                   Some energy \<Rightarrow>
                     if limit < energy
                     then map (\<lambda>(i, c). (c, alert_message (number_toString e) nm energy limit (clock e i)))
                              (enumerate (length (requests s)) chatIds)
                     else []
                 | None \<Rightarrow> [])"
proof -
  have "Object_keys readings \<noteq> []" using ne by (simp add: Object_keys_def)
  from latest_timestamp [OF ps this] obtain k rest where
    srt: "array_sort (newest_first e) (Object_keys readings) = k # rest"
    and k: "k \<in> set (Object_keys readings)"
    and mx: "\<forall>k' \<in> set (Object_keys readings). the (parseInt e k') \<le> the (parseInt e k)"
    by blast
  let ?s0 = "s\<lparr>devicesChecked := devicesChecked s + 1\<rparr>"
  have cd: "check_device e db chatIds (deviceId, device) s
              = snd (check_device_try e db chatIds deviceId device limit ?s0)"
    using lim by (simp add: check_device_def Let_def)
  have "requests (snd (check_device_try e db chatIds deviceId device limit ?s0))
          = requests s @
                (case energy_of (get_prop readings k) of
                   Some energy \<Rightarrow>
                     if limit < energy
                     then map (\<lambda>(i, c). (c, alert_message (number_toString e) nm energy limit (clock e i)))
                              (enumerate (length (requests s)) chatIds)
                     else []
                 | None \<Rightarrow> [])"
  proof (cases "energy_of (get_prop readings k)")
    case None
    then show ?thesis by (simp add: check_device_try_def rd srt)
  next
    case (Some energy)
    show ?thesis
    proof (cases "limit < energy")
      case True
      then show ?thesis
        by (simp add: check_device_try_def rd srt Some nm Let_def broadcast_requests)
    next
      case False
      then show ?thesis by (simp add: check_device_try_def rd srt Some)
    qed
  qed
  with cd k mx show ?thesis by auto
qed

text \<open>
  Claim C5, as amended. For a device evaluated by the alert evaluator: with a limit that
  is unset or 0, no request is sent to Telegram, whatever the readings are. With another
  limit, when the read of its readings and the look-up of its display name succeed and
  every reading key parses as a number, the evaluator selects a reading whose key has the
  maximum numeric timestamp, and sends one request to every chat, in order, exactly when
  that reading has an energy strictly greater than the limit; otherwise it sends none.
  When the device has no readings, or the read of the readings or of the first user's
  record fails, no request is sent. The text of an alert contains the energy, the limit
  and the overage, each as \<^verbatim>\<open>toFixed(2)\<close> prints it, where the overage is the difference
  of the two in double-precision arithmetic; and for a number of magnitude below
  \<open>10\<^sup>2\<^sup>1\<close>, what \<^verbatim>\<open>toFixed(2)\<close> prints is a decimal numeral with two digits after the
  point, within 0.005 of the number.
\<close>

theorem alert_policy:
  "(energyLimit device = None \<or> energyLimit device = Some 0 \<longrightarrow>
       requests (check_device e db chatIds (deviceId, device) s) = requests s)
   \<and> (energyLimit device = Some limit \<and> limit \<noteq> 0
       \<and> get_readings e db deviceId = Inr (Some readings) \<and> readings \<noteq> []
       \<and> (\<forall>k \<in> set (Object_keys readings). parseInt e k \<noteq> None)
       \<and> resolve_name e db deviceId device = Inr nm \<longrightarrow>
       (\<exists>k \<in> set (Object_keys readings).
          (\<forall>k' \<in> set (Object_keys readings). the (parseInt e k') \<le> the (parseInt e k))
          \<and> requests (check_device e db chatIds (deviceId, device) s)
              = requests s @
                (case energy_of (get_prop readings k) of
                   Some energy \<Rightarrow>
                     if limit < energy
                     then map (\<lambda>(i, c).
                                 (c, alert_message (number_toString e) nm energy limit (clock e i)))
                              (enumerate (length (requests s)) chatIds)
                     else []
                 | None \<Rightarrow> [])))
   \<and> (get_readings e db deviceId = Inr None \<or> get_readings e db deviceId = Inr (Some [])
       \<or> get_readings e db deviceId = Inl x \<or> resolve_name e db deviceId device = Inl x \<longrightarrow>
       requests (check_device e db chatIds (deviceId, device) s) = requests s)
   \<and> sublist (toFixed2 f en) (alert_message f nm en limit ts)
   \<and> sublist (toFixed2 f limit) (alert_message f nm en limit ts)
   \<and> sublist (number_toFixed2 f (number_minus en limit)) (alert_message f nm en limit ts)
   \<and> (\<bar>q\<bar> < 10 ^ 21 \<longrightarrow>
       (\<exists>n a b. a < 10 \<and> b < 10
          \<and> toFixed2 f q
              = (if q < 0 then ''-'' else '''') @ decimal n @ ''.'' @ [digit_char a, digit_char b]
          \<and> \<bar>of_nat (100 * n + 10 * a + b) / 100 - \<bar>q\<bar>\<bar> \<le> 1 / 200))"
  using check_device_no_limit [of device e db chatIds deviceId s]
        check_device_latest [of device limit e db deviceId readings nm chatIds s]
        check_device_failed [of e db deviceId x device chatIds s]
        alert_message_contains [of f en nm limit ts]
        toFixed2_two_decimals [of q f]
  by blast


theorem alert_policy_witness:
  "requests (check_device alert_ok alert_rtdb [Some 42] (''plug'', plug) start_alert_vars)
     = [(Some 42, alert_message (number_toString alert_ok) ''Heater'' (2501 / 2) 1000
                    ''Nov 2, 2026, 3:34 AM'')]
   \<and> requests (check_device alert_ok alert_rtdb [Some 42] (''lamp'', lamp) start_alert_vars) = []
   \<and> requests (check_device alert_ok under_limit_rtdb [Some 42] (''plug'', plug) start_alert_vars)
       = []
   \<and> sublist ''1250.50'' (alert_message (number_toString alert_ok) ''Heater'' (2501 / 2) 1000
                            ''Nov 2, 2026, 3:34 AM'')
   \<and> sublist ''1000.00'' (alert_message (number_toString alert_ok) ''Heater'' (2501 / 2) 1000
                            ''Nov 2, 2026, 3:34 AM'')
   \<and> sublist ''250.50'' (alert_message (number_toString alert_ok) ''Heater'' (2501 / 2) 1000
                           ''Nov 2, 2026, 3:34 AM'')
   \<and> sublist ''13.28'' (alert_message (number_toString alert_ok) ''Heater'' (107 / 8)
                          (3602879701896397 / 36028797018963968) ''Nov 2, 2026, 3:34 AM'')
   \<and> (\<exists>n a b. a < 10 \<and> b < 10
          \<and> ''1250.50'' = decimal n @ ''.'' @ [digit_char a, digit_char b]
          \<and> \<bar>of_nat (100 * n + 10 * a + b) / 100 - \<bar>2501 / 2 :: rat\<bar>\<bar> \<le> 1 / 200)"
proof -
  let ?ts = "''Nov 2, 2026, 3:34 AM''"
  let ?f = "number_toString alert_ok"
  have lim: "energyLimit plug = Some 1000 \<and> (1000::rat) \<noteq> 0" by (simp add: plug_def)
  have c: "clock alert_ok i = ?ts" for i by (simp add: alert_ok_def)
  have z: "requests start_alert_vars = []" by (simp add: start_alert_vars_def)
  \<comment> \<open>the device without a limit\<close>
  have "energyLimit lamp = None \<or> energyLimit lamp = Some 0" by (simp add: lamp_def)
  with alert_policy [of lamp alert_ok alert_rtdb "[Some 42]" "''lamp''" start_alert_vars]
  have w2: "requests (check_device alert_ok alert_rtdb [Some 42] (''lamp'', lamp) start_alert_vars) = []"
    unfolding z by blast
  \<comment> \<open>the device over its limit\<close>
  have keys: "Object_keys alert_readings = [''1700000000000'', ''1700172800000'', ''1700086400000'']"
    by (simp add: Object_keys_def alert_readings_def)
  have h1: "alert_readings \<noteq> []
       \<and> (\<forall>k \<in> set (Object_keys alert_readings). parseInt alert_ok k \<noteq> None)"
    by (simp add: keys alert_ok_parseInt parse_digits_examples) (simp add: alert_readings_def)
  from alert_policy [of plug alert_ok alert_rtdb "[Some 42]" "''plug''" start_alert_vars 1000
         alert_readings "''Heater''"]
       lim plug_readings_example h1 plug_resolve_example
  obtain k where k: "k \<in> set (Object_keys alert_readings)"
    and mx: "\<forall>k' \<in> set (Object_keys alert_readings).
               the (parseInt alert_ok k') \<le> the (parseInt alert_ok k)"
    and rq: "requests (check_device alert_ok alert_rtdb [Some 42] (''plug'', plug) start_alert_vars)
              = requests start_alert_vars @
                (case energy_of (get_prop alert_readings k) of
                   Some energy \<Rightarrow>
                     if 1000 < energy
                     then map (\<lambda>(i, c). (c, alert_message ?f ''Heater'' energy 1000 (clock alert_ok i)))
                              (enumerate (length (requests start_alert_vars)) [Some 42])
                     else []
                 | None \<Rightarrow> [])"
    by blast
  from k mx have "k = ''1700172800000''"
    by (auto simp: keys alert_ok_parseInt parse_digits_examples)
  with rq have w1: "requests (check_device alert_ok alert_rtdb [Some 42] (''plug'', plug) start_alert_vars)
     = [(Some 42, alert_message ?f ''Heater'' (2501 / 2) 1000 ?ts)]"
    by (simp add: z plug_energy_example c)
  \<comment> \<open>the device just under its limit\<close>
  let ?under = "[(''1700172800000'', Some [(''energy'', 99999 / 100 :: rat)])]"
  have u1: "get_readings alert_ok under_limit_rtdb ''plug'' = Inr (Some ?under)"
    by (simp add: get_readings_def alert_ok_def under_limit_rtdb_def alert_rtdb_def get_prop_def)
  have u2: "?under \<noteq> [] \<and> (\<forall>k \<in> set (Object_keys ?under). parseInt alert_ok k \<noteq> None)"
    by (simp add: Object_keys_def alert_ok_parseInt parse_digits_examples)
  have u3: "resolve_name alert_ok under_limit_rtdb ''plug'' plug = Inr ''Heater''"
    by (simp add: resolve_name_def get_user_def alert_ok_def under_limit_rtdb_def alert_rtdb_def
          plug_def Object_keys_def get_prop_def)
  from alert_policy [of plug alert_ok under_limit_rtdb "[Some 42]" "''plug''" start_alert_vars 1000
         ?under "''Heater''"]
       lim u1 u2 u3
  obtain k' where "k' \<in> set (Object_keys ?under)"
    and "requests (check_device alert_ok under_limit_rtdb [Some 42] (''plug'', plug) start_alert_vars)
              = requests start_alert_vars @
                (case energy_of (get_prop ?under k') of
                   Some energy \<Rightarrow>
                     if 1000 < energy
                     then map (\<lambda>(i, c). (c, alert_message ?f ''Heater'' energy 1000 (clock alert_ok i)))
                              (enumerate (length (requests start_alert_vars)) [Some 42])
                     else []
                 | None \<Rightarrow> [])"
    by blast
  then have w3: "requests (check_device alert_ok under_limit_rtdb [Some 42] (''plug'', plug)
                    start_alert_vars) = []"
    by (simp add: z Object_keys_def energy_of_def get_prop_def)
  \<comment> \<open>the text\<close>
  from alert_policy [where en = "2501 / 2" and limit = 1000 and nm = "''Heater''" and ts = ?ts
         and f = ?f]
  have w4: "sublist ''1250.50'' (alert_message ?f ''Heater'' (2501 / 2) 1000 ?ts)
     \<and> sublist ''1000.00'' (alert_message ?f ''Heater'' (2501 / 2) 1000 ?ts)
     \<and> sublist ''250.50'' (alert_message ?f ''Heater'' (2501 / 2) 1000 ?ts)"
    unfolding toFixed2_examples overage_examples by blast
  from alert_policy [where en = "107 / 8" and limit = "3602879701896397 / 36028797018963968"
         and nm = "''Heater''" and ts = ?ts and f = ?f]
  have w5: "sublist ''13.28'' (alert_message ?f ''Heater'' (107 / 8)
              (3602879701896397 / 36028797018963968) ?ts)"
    unfolding overage_examples by blast
  \<comment> \<open>two decimals\<close>
  have "\<bar>2501 / 2 :: rat\<bar> < 10 ^ 21" by simp
  with alert_policy [where q = "2501 / 2" and f = ?f]
  have "\<exists>n a b. a < 10 \<and> b < 10
          \<and> toFixed2 ?f (2501 / 2)
              = (if (2501 / 2 :: rat) < 0 then ''-'' else '''') @ decimal n @ ''.''
                @ [digit_char a, digit_char b]
          \<and> \<bar>of_nat (100 * n + 10 * a + b) / 100 - \<bar>2501 / 2 :: rat\<bar>\<bar> \<le> 1 / 200"
    by blast
  moreover have "\<not> (2501 / 2 :: rat) < 0" by simp
  ultimately have w6: "\<exists>n a b. a < 10 \<and> b < 10
          \<and> ''1250.50'' = decimal n @ ''.'' @ [digit_char a, digit_char b]
          \<and> \<bar>of_nat (100 * n + 10 * a + b) / 100 - \<bar>2501 / 2 :: rat\<bar>\<bar> \<le> 1 / 200"
    unfolding toFixed2_examples by (simp only: if_False append_Nil)
  from w1 w2 w3 w4 w5 w6 show ?thesis by blast
qed

lemma user_read_fails_parseInt: "parseInt alert_user_read_fails = parse_digits"
  by (simp add: alert_user_read_fails_def alert_ok_def)

text \<open>
  The claim as stated fails when the display name cannot be read: the device \<open>plug\<close>
  has the limit 1000, its reading with the maximum timestamp has the energy 1250.50, it
  is counted as over the limit, and yet no request is sent, because the read of
  \<^verbatim>\<open>/users/u1\<close> throws and the exception ends the work on this device.
\<close>

theorem alert_policy_counterexample:
  "energyLimit plug = Some 1000
   \<and> get_readings alert_user_read_fails alert_rtdb ''plug'' = Inr (Some alert_readings)
   \<and> array_sort (newest_first alert_user_read_fails) (Object_keys alert_readings)
       = [''1700172800000'', ''1700086400000'', ''1700000000000'']
   \<and> energy_of (get_prop alert_readings ''1700172800000'') = Some (2501 / 2)
   \<and> (1000::rat) < 2501 / 2
   \<and> check_device alert_user_read_fails alert_rtdb [Some 42] (''plug'', plug) start_alert_vars
       = \<lparr> devicesChecked = 1, devicesOverLimit = 1, alertsSent = 0, requests = [] \<rparr>"
proof -
  have l: "energyLimit plug = Some 1000" by (simp add: plug_def)
  have r: "get_readings alert_user_read_fails alert_rtdb ''plug'' = Inr (Some alert_readings)"
    by (simp add: get_readings_def alert_user_read_fails_def alert_ok_def alert_rtdb_def
          get_prop_def)
  have n: "resolve_name alert_user_read_fails alert_rtdb ''plug'' plug = Inl Read_failed"
    by (simp add: resolve_name_def get_user_def alert_user_read_fails_def alert_ok_def
          plug_def Object_keys_def)
  have c: "check_device alert_user_read_fails alert_rtdb [Some 42] (''plug'', plug) start_alert_vars
       = \<lparr> devicesChecked = 1, devicesOverLimit = 1, alertsSent = 0, requests = [] \<rparr>"
    by (simp add: check_device_def check_device_try_def l r n Let_def start_alert_vars_def
          alert_sort_example [OF user_read_fails_parseInt] plug_energy_example)
  from l r alert_sort_example [OF user_read_fails_parseInt] plug_energy_example c
  show ?thesis by simp
qed

section \<open>Saving a chat in the notification registry\<close>

lemma show_int_42: "show_int 42 = ''42''"
  by (simp add: show_int_def decimal_digit decimal_more digit_char_def)

lemma get_prop_set_prop: "get_prop (set_prop obj key v) key = Some v"
  by (induction obj) (auto simp: get_prop_def)

lemma get_prop_set_prop_other: "k \<noteq> key \<Longrightarrow> get_prop (set_prop obj key v) k = get_prop obj k"
  by (induction obj) (auto simp: get_prop_def)

lemma get_prop_single: "get_prop [(k, v)] k = Some v"
  by (simp add: get_prop_def)

lemma saveActiveChatId_repeat:
  assumes "get_prop (chats d) (show_int chat) = Some old" and "addedAt old \<noteq> 0"
    and "\<not> failing ''getDoc''" and "\<not> failing ''updateDoc''"
  shows "\<exists>d'. saveActiveChatId failing now (Some d) chat uname fname = (None, Some d')
           \<and> get_prop (chats d') (show_int chat)
               = Some (new_entry chat uname fname now (addedAt old))
           \<and> (\<forall>k. k \<noteq> show_int chat \<longrightarrow> get_prop (chats d') k = get_prop (chats d) k)
           \<and> last_update_id d' = last_update_id d"
  using assms
  by (simp add: saveActiveChatId_def Let_def get_prop_set_prop get_prop_set_prop_other)

lemma saveActiveChatId_first:
  assumes "chatDoc = None \<or> (\<exists>d. chatDoc = Some d \<and> get_prop (chats d) (show_int chat) = None)"
    and "\<not> failing ''getDoc''" and "\<not> failing ''setDoc''" and "\<not> failing ''updateDoc''"
  shows "\<exists>d'. saveActiveChatId failing now chatDoc chat uname fname = (None, Some d')
           \<and> get_prop (chats d') (show_int chat) = Some (new_entry chat uname fname now now)"
  using assms
  by (auto simp: saveActiveChatId_def Let_def get_prop_set_prop get_prop_single)

lemma saveActiveChatId_rtdb_entry:
  assumes "\<not> failing ''set''"
  shows "\<exists>cs. saveActiveChatId_rtdb failing now active_chats chat uname fname = (None, Some cs)
           \<and> get_prop cs (show_int chat) = Some (new_entry chat uname fname now now)"
  using assms by (simp add: saveActiveChatId_rtdb_def get_prop_set_prop)

text \<open>
  Claim C8 (repeat contact keeps \<open>addedAt\<close>) at the chat 42, registered at
  1690000000000 and saved again at 1700000000000: saveActiveChatId of the Realtime
  Database module writes \<open>addedAt = 1700000000000\<close>, so the original value is lost;
  saveActiveChatId of the Firestore module, on the same registry, keeps
  \<open>addedAt = 1690000000000\<close> and only moves \<open>lastActive\<close>.
\<close>

theorem saveActiveChatId_repeat_contact:
  "saveActiveChatId_rtdb no_failing 1700000000000 (Some registered_42) 42 None (Some ''Ann'')
     = (None, Some [(''42'', \<lparr> chatId = 42, chat_username = None, firstName = Some ''Ann'',
                              lastActive = 1700000000000, addedAt = 1700000000000 \<rparr>)])
   \<and> saveActiveChatId no_failing 1700000000000
        (Some \<lparr> chats = registered_42, last_update_id = 7 \<rparr>) 42 None (Some ''Ann'')
     = (None, Some \<lparr> chats =
                        [(''42'', \<lparr> chatId = 42, chat_username = None, firstName = Some ''Ann'',
                                   lastActive = 1700000000000, addedAt = 1690000000000 \<rparr>)],
                      last_update_id = 7 \<rparr>)"
  by (simp add: saveActiveChatId_rtdb_def saveActiveChatId_def no_failing_def registered_42_def
        show_int_42 val_or_empty_def new_entry_def or_null_def get_prop_def Let_def)

end
